theory Spec2Isabelle
  imports Main "HOL-Library.Char_ord" "HOL-Library.List_Lexorder" "HOL-Library.Sublist"
begin

section \<open>The persistent store (SQLite schema of pkg/db/migrations)\<close>

text \<open>
  The chat service talks to a SQLite database with foreign keys switched on. Each table the
  real-time hub touches is a list of rows, in rowid order. User identifiers are TEXT
  (\<open>string\<close>); thread, group and message identifiers are INTEGER PRIMARY KEY AUTOINCREMENT
  columns, modelled as \<open>nat\<close> together with the sequence counter SQLite keeps for them (the
  largest identifier handed out so far, so an identifier is never reused).

  The field \<open>available\<close> stands for the health of the connection: when it is \<open>False\<close> every
  \<open>Begin\<close>, \<open>Query\<close> and \<open>Exec\<close> returns an error. That is how the error returns of the
  source which do not depend on the data (I/O failure, closed handle) show up in the model.

  The Go side passes chat and group identifiers as strings, and SQLite compares such a TEXT
  parameter with an INTEGER column, or stores it into one, after applying numeric
  affinity. That conversion is the engine's (it reads \<open>'1'\<close>, \<open>' 1'\<close>, \<open>'+1'\<close>, \<open>'1.0'\<close>, \<open>'1e0'\<close>
  as 1, through floating point), not the repository's, so it is a parameter of the store:
  \<open>text_to_integer s\<close> is the non-negative integer the text \<open>s\<close> compares equal to, if any.
  Nothing is assumed about it except where a theorem says so (\<open>decimal_ok\<close>).
\<close>

datatype db_error =
    ErrUnavailable
  | ErrPrimaryKey
  | ErrForeignKey
  | ErrCheck
  | ErrUnique
  | ErrNoRows

record UserRow =
  first_name :: string
  last_name :: string
  avatar_path :: "string option"

record ThreadRow =
  thread_id :: nat
  is_group :: bool
  group_id :: "nat option"

record MessageRow =
  message_id :: nat
  chat_id :: nat
  sender_id :: string
  content :: string
  message_type :: string
  created_at :: nat

record ReadRow =
  read_message_id :: string
  read_user_id :: string
  read_at :: nat

record DB =
  available :: bool
  text_to_integer :: "string \<Rightarrow> nat option"
  users :: "string \<rightharpoonup> UserRow"
  groups :: "nat list"
  group_memberships :: "(nat \<times> string) list"
  chat_threads :: "ThreadRow list"
  thread_seq :: nat
  chat_participants :: "(nat \<times> string) list"
  messages :: "MessageRow list"
  message_seq :: nat
  message_reads :: "ReadRow list"
  followers :: "(string \<times> string) list"

section \<open>Wire types (package websocket)\<close>

text \<open>
  The structs of the wire protocol. Go's \<open>time.Time\<close> is a number (an instant), Go's \<open>int\<close>
  is \<open>int\<close>. Where two structs have a field of the same name, the later record prefixes
  it (\<open>TypingChatID\<close>, \<open>StatusUserID\<close>, \<open>RoomID\<close>, ...).
\<close>

record ChatMessage =
  ID :: string
  ChatID :: string
  SenderID :: string
  SenderName :: string
  SenderAvatar :: string
  Content :: string
  MessageType :: string
  Timestamp :: nat
  IsRead :: bool
  RecipientID :: string
  GroupID :: string

record TypingMessage =
  UserID :: string
  NickName :: string
  TypingChatID :: string
  IsTyping :: bool

record UserStatusMessage =
  StatusUserID :: string
  IsOnline :: bool
  LastSeen :: nat

record ChatRoom =
  RoomID :: string
  Type :: string
  Name :: string
  Avatar :: string
  Participants :: "string list"
  LastMessage :: "ChatMessage option"
  UnreadCount :: int
  RoomIsOnline :: bool
  MemberCount :: int
  RoomGroupID :: string

record MessagesReadMessage =
  ReadChatID :: string
  MessageIDs :: "string list"
  ReadUserID :: string

text \<open>
  The envelope. \<open>Data\<close> is \<open>interface{}\<close> in the source; the payloads the modelled handlers
  send are the constructors of \<open>payload\<close> (\<open>ErrorData message type\<close> is the map
  \<open>{"error": true, "message": ..., "type": ...}\<close>). The bytes on a channel are
  \<open>json.Marshal\<close> of an envelope; the model keeps the envelope itself.
\<close>

datatype payload =
    ChatData ChatMessage
  | TypingData "TypingMessage list"
  | StatusData UserStatusMessage
  | ErrorData string string

record WSMessage =
  WSType :: string
  Data :: payload
  WSTimestamp :: nat

definition TypeChat :: string where "TypeChat = ''chat''"
definition TypeTyping :: string where "TypeTyping = ''typing''"
definition TypeGif :: string where "TypeGif = ''gif''"
definition TypeUserStatusUpdate :: string where "TypeUserStatusUpdate = ''user_status_update''"

subsection \<open>Integers that travel as decimal strings\<close>

text \<open>
  \<open>strconv.FormatInt(id, 10)\<close> writes an identifier in decimal. \<open>decimal_value\<close> reads a string
  of decimal digits back; it is the conversion of the example store, which agrees with the
  engine on the decimal numerals the examples use.
\<close>

definition digit_char :: "nat \<Rightarrow> char" where
  "digit_char d = ''0123456789'' ! d"

fun FormatInt :: "nat \<Rightarrow> string" where
  "FormatInt n = (if n < 10 then [digit_char n] else FormatInt (n div 10) @ [digit_char (n mod 10)])"

declare FormatInt.simps [simp del]

definition digit_val :: "char \<Rightarrow> nat option" where
  "digit_val c = map_of (zip ''0123456789'' [0, 1, 2, 3, 4, 5, 6, 7, 8, 9]) c"

fun digits_value :: "nat \<Rightarrow> string \<Rightarrow> nat option" where
  "digits_value acc [] = Some acc"
| "digits_value acc (c # cs) =
     (case digit_val c of None \<Rightarrow> None | Some d \<Rightarrow> digits_value (10 * acc + d) cs)"

definition decimal_value :: "string \<Rightarrow> nat option" where
  "decimal_value s = (if s = [] then None else digits_value 0 s)"

subsection \<open>Rows of a chat thread\<close>

definition participants_of :: "DB \<Rightarrow> nat \<Rightarrow> string list" where
  "participants_of db cid = map snd (filter (\<lambda>r. fst r = cid) (chat_participants db))"

text \<open>
  The WHERE clause shared by \<open>getOrCreatePrivateChatThread\<close> and \<open>GetOrCreatePrivateChat\<close>:
  a thread that is not a group, joined with a participant row of each of the two users,
  and with exactly two participant rows in all.
\<close>

definition private_thread_matches :: "DB \<Rightarrow> string \<Rightarrow> string \<Rightarrow> ThreadRow \<Rightarrow> bool" where
  "private_thread_matches db userID1 userID2 ct \<longleftrightarrow>
     \<not> is_group ct \<and>
     (thread_id ct, userID1) \<in> set (chat_participants db) \<and>
     (thread_id ct, userID2) \<in> set (chat_participants db) \<and>
     length (participants_of db (thread_id ct)) = 2"

definition private_threads :: "DB \<Rightarrow> string \<Rightarrow> string \<Rightarrow> nat list" where
  "private_threads db userID1 userID2 =
     map thread_id (filter (private_thread_matches db userID1 userID2) (chat_threads db))"

text \<open>
  \<open>INSERT INTO chat_threads (is_group, group_id, created_at)\<close>: the new identifier is one
  more than the sequence counter; a group identifier must exist in \<open>groups\<close> (foreign key).
  The result is \<open>LastInsertId\<close> and the table after the insert.
\<close>

definition insert_chat_thread :: "DB \<Rightarrow> bool \<Rightarrow> nat option \<Rightarrow> db_error + (nat \<times> DB)" where
  "insert_chat_thread db isg gid =
     (if \<not> available db then Inl ErrUnavailable
      else if (case gid of None \<Rightarrow> False | Some g \<Rightarrow> g \<notin> set (groups db)) then Inl ErrForeignKey
      else let i = Suc (thread_seq db) in
        Inr (i, db\<lparr>chat_threads := chat_threads db @ [\<lparr>thread_id = i, is_group = isg, group_id = gid\<rparr>],
                    thread_seq := i\<rparr>))"

text \<open>
  \<open>INSERT INTO chat_participants (chat_id, user_id) VALUES ...\<close>, one statement for all the
  rows given. The primary key (the pair) is checked as each row goes in, against the table
  and the rows before it; the foreign keys (the thread and the user exist) are checked
  when the statement ends. A statement that fails inserts nothing.
\<close>

fun insert_participant_rows :: "DB \<Rightarrow> (nat \<times> string) list \<Rightarrow> db_error + DB" where
  "insert_participant_rows db [] = Inr db"
| "insert_participant_rows db ((cid, u) # rows) =
     (if (cid, u) \<in> set (chat_participants db) then Inl ErrPrimaryKey
      else insert_participant_rows (db\<lparr>chat_participants := chat_participants db @ [(cid, u)]\<rparr>) rows)"

definition participant_keys_ok :: "DB \<Rightarrow> (nat \<times> string) list \<Rightarrow> bool" where
  "participant_keys_ok db rows =
     list_all (\<lambda>r. users db (snd r) \<noteq> None \<and> fst r \<in> thread_id ` set (chat_threads db)) rows"

definition insert_participants :: "DB \<Rightarrow> (nat \<times> string) list \<Rightarrow> db_error + DB" where
  "insert_participants db rows =
     (if \<not> available db then Inl ErrUnavailable
      else case insert_participant_rows db rows of
        Inl e \<Rightarrow> Inl e
      | Inr db' \<Rightarrow> if participant_keys_ok db rows then Inr db' else Inl ErrForeignKey)"

section \<open>Thread resolver (chat.go)\<close>

text \<open>
  \<open>getOrCreatePrivateChatThread(tx, userID1, userID2)\<close> runs inside the caller's
  transaction. \<open>QueryRow(...).Scan\<close> takes the first row of the result (here: the matching
  thread that comes first in the table) and gives \<open>sql.ErrNoRows\<close> when there is none. Every
  error is returned to the caller, which rolls back; the model returns the error alone.
\<close>

definition getOrCreatePrivateChatThread :: "DB \<Rightarrow> string \<Rightarrow> string \<Rightarrow> db_error + (nat \<times> DB)" where
  "getOrCreatePrivateChatThread tx userID1 userID2 =
     (if \<not> available tx then Inl ErrUnavailable
      else case private_threads tx userID1 userID2 of
        chatID # _ \<Rightarrow> Inr (chatID, tx)
      | [] \<Rightarrow>
          (case insert_chat_thread tx False None of
             Inl e \<Rightarrow> Inl e
           | Inr (chatID, tx1) \<Rightarrow>
               (case insert_participants tx1 [(chatID, userID1), (chatID, userID2)] of
                  Inl e \<Rightarrow> Inl e
                | Inr tx2 \<Rightarrow> Inr (chatID, tx2))))"

text \<open>
  \<open>getChatParticipants(chatID)\<close>: the user ids of the rows whose \<open>chat_id\<close> equals the (string)
  parameter. The query has no ORDER BY; SQLite answers it from the index of the primary
  key \<open>(chat_id, user_id)\<close>, so the ids come out in ascending byte order.
\<close>

definition getChatParticipants :: "DB \<Rightarrow> string \<Rightarrow> db_error + string list" where
  "getChatParticipants db chatID =
     (if \<not> available db then Inl ErrUnavailable
      else case text_to_integer db chatID of
        None \<Rightarrow> Inr []
      | Some cid \<Rightarrow> Inr (sort (participants_of db cid)))"

text \<open>
  \<open>getChatRoomByID(chatID, currentUserID)\<close>. The two scalar subqueries join the thread's
  participants other than the current user with \<open>users\<close> and keep the first row
  (\<open>LIMIT 1\<close>); the name falls back to \<open>'Private Chat'\<close>, a NULL avatar becomes the empty
  string. Scanning the integer \<open>ct.id\<close> into the string field formats it in decimal.
\<close>

definition other_participant :: "DB \<Rightarrow> nat \<Rightarrow> string \<Rightarrow> UserRow option" where
  "other_participant db cid currentUserID =
     (case filter (\<lambda>u. u \<noteq> currentUserID \<and> users db u \<noteq> None) (sort (participants_of db cid)) of
        [] \<Rightarrow> None
      | u # _ \<Rightarrow> users db u)"

definition getChatRoomByID :: "DB \<Rightarrow> nat \<Rightarrow> string \<Rightarrow> db_error + ChatRoom" where
  "getChatRoomByID db chatID currentUserID =
     (if \<not> available db then Inl ErrUnavailable
      else case filter (\<lambda>ct. thread_id ct = chatID) (chat_threads db) of
        [] \<Rightarrow> Inl ErrNoRows
      | ct # _ \<Rightarrow>
          (let other = other_participant db (thread_id ct) currentUserID;
               chat = \<lparr>RoomID = FormatInt (thread_id ct),
                       Type = (if is_group ct then ''group'' else ''private''),
                       Name = (case other of None \<Rightarrow> ''Private Chat''
                               | Some r \<Rightarrow> first_name r @ '' '' @ last_name r),
                       Avatar = (case other of None \<Rightarrow> []
                                 | Some r \<Rightarrow> (case avatar_path r of None \<Rightarrow> [] | Some a \<Rightarrow> a)),
                       Participants = [],
                       LastMessage = None,
                       UnreadCount = 0,
                       RoomIsOnline = False,
                       MemberCount = 0,
                       RoomGroupID = (if is_group ct
                                      then (case group_id ct of None \<Rightarrow> [] | Some g \<Rightarrow> FormatInt g)
                                      else [])\<rparr>
           in case getChatParticipants db (RoomID chat) of
                Inl e \<Rightarrow> Inl e
              | Inr participants \<Rightarrow> Inr (chat\<lparr>Participants := participants\<rparr>)))"

text \<open>
  \<open>GetOrCreatePrivateChat(userID1, userID2)\<close> orders the two ids (Go compares strings byte by
  byte, as the lexicographic order on \<open>string\<close> does), then repeats the find-or-create in a
  transaction of its own. An error before \<open>Commit\<close> rolls the transaction back: the store
  is the one the call started with. The room is read after the commit, so an error there
  leaves the committed store. The result is the pair of what the call returns and the store.
\<close>

definition GetOrCreatePrivateChat :: "DB \<Rightarrow> string \<Rightarrow> string \<Rightarrow> (db_error + ChatRoom) \<times> DB" where
  "GetOrCreatePrivateChat db userID1 userID2 =
     (let u1 = (if userID1 > userID2 then userID2 else userID1);
          u2 = (if userID1 > userID2 then userID1 else userID2)
      in if \<not> available db then (Inl ErrUnavailable, db)
         else case private_threads db u1 u2 of
           chatID # _ \<Rightarrow> (getChatRoomByID db chatID u1, db)
         | [] \<Rightarrow>
             (case insert_chat_thread db False None of
                Inl e \<Rightarrow> (Inl e, db)
              | Inr (chatID, tx1) \<Rightarrow>
                  (case insert_participants tx1 [(chatID, u1), (chatID, u2)] of
                     Inl e \<Rightarrow> (Inl e, db)
                   | Inr tx2 \<Rightarrow> (getChatRoomByID tx2 chatID u1, tx2))))"

text \<open>
  \<open>addGroupMembersToChat\<close>: \<open>INSERT OR IGNORE ... SELECT ?, user_id FROM group_memberships\<close>.
  A row that is already there is skipped; the foreign keys of the rows that do go in are
  checked when the statement ends.
\<close>

fun insert_or_ignore_participants :: "DB \<Rightarrow> (nat \<times> string) list \<Rightarrow> DB" where
  "insert_or_ignore_participants db [] = db"
| "insert_or_ignore_participants db ((cid, u) # rows) =
     (if (cid, u) \<in> set (chat_participants db) then insert_or_ignore_participants db rows
      else insert_or_ignore_participants (db\<lparr>chat_participants := chat_participants db @ [(cid, u)]\<rparr>) rows)"

definition addGroupMembersToChat :: "DB \<Rightarrow> nat \<Rightarrow> nat \<Rightarrow> db_error + DB" where
  "addGroupMembersToChat tx chatID g =
     (if \<not> available tx then Inl ErrUnavailable
      else let rows = map (\<lambda>r. (chatID, snd r)) (filter (\<lambda>r. fst r = g) (group_memberships tx))
        in if participant_keys_ok tx (filter (\<lambda>r. r \<notin> set (chat_participants tx)) rows)
           then Inr (insert_or_ignore_participants tx rows)
           else Inl ErrForeignKey)"

text \<open>
  \<open>getOrCreateGroupChatThread(tx, groupID)\<close>. The group id arrives as a string and is compared
  with, and stored into, the INTEGER column \<open>group_id\<close>, which references \<open>groups(id)\<close>: a
  string that is no number matches no row and cannot be inserted.
\<close>

definition getOrCreateGroupChatThread :: "DB \<Rightarrow> string \<Rightarrow> db_error + (nat \<times> DB)" where
  "getOrCreateGroupChatThread tx groupID =
     (if \<not> available tx then Inl ErrUnavailable
      else case text_to_integer tx groupID of
        None \<Rightarrow> Inl ErrForeignKey
      | Some g \<Rightarrow>
          (case filter (\<lambda>ct. is_group ct \<and> group_id ct = Some g) (chat_threads tx) of
             ct # _ \<Rightarrow> Inr (thread_id ct, tx)
           | [] \<Rightarrow>
               (case insert_chat_thread tx True (Some g) of
                  Inl e \<Rightarrow> Inl e
                | Inr (chatID, tx1) \<Rightarrow>
                    (case addGroupMembersToChat tx1 chatID g of
                       Inl e \<Rightarrow> Inl e
                     | Inr tx2 \<Rightarrow> Inr (chatID, tx2)))))"

text \<open>
  \<open>INSERT INTO messages (chat_id, sender_id, content, message_type, created_at)\<close>, with the
  CHECK constraint of the table on \<open>message_type\<close> and its two foreign keys.
\<close>

definition insert_message :: "DB \<Rightarrow> nat \<Rightarrow> ChatMessage \<Rightarrow> db_error + (nat \<times> DB)" where
  "insert_message db cid msg =
     (if \<not> available db then Inl ErrUnavailable
      else if MessageType msg \<in> set [''text'', ''emoji'', ''media''] then
        (if users db (SenderID msg) = None \<or> cid \<notin> thread_id ` set (chat_threads db)
         then Inl ErrForeignKey
         else let i = Suc (message_seq db) in
           Inr (i, db\<lparr>messages := messages db @
                         [\<lparr>message_id = i, chat_id = cid, sender_id = SenderID msg,
                           content = Content msg, message_type = MessageType msg,
                           created_at = Timestamp msg\<rparr>],
                       message_seq := i\<rparr>))
      else Inl ErrCheck)"

text \<open>
  \<open>SaveMessageAndGetIDs(msg, groupID)\<close>: one transaction that resolves the thread and
  appends the message. On \<open>Inl\<close> the deferred rollback has undone everything, so the caller
  keeps the store it had.
\<close>

definition SaveMessageAndGetIDs :: "DB \<Rightarrow> ChatMessage \<Rightarrow> string \<Rightarrow> db_error + (nat \<times> nat \<times> DB)" where
  "SaveMessageAndGetIDs db msg groupID =
     (if \<not> available db then Inl ErrUnavailable
      else case (if groupID \<noteq> [] then getOrCreateGroupChatThread db groupID
                 else getOrCreatePrivateChatThread db (SenderID msg) (RecipientID msg)) of
        Inl e \<Rightarrow> Inl e
      | Inr (chatID, tx1) \<Rightarrow>
          (case insert_message tx1 chatID msg of
             Inl e \<Rightarrow> Inl e
           | Inr (messageID, tx2) \<Rightarrow> Inr (chatID, messageID, tx2)))"

text \<open>
  \<open>getRelatedUsers(userID)\<close>: the other end of every \<open>followers\<close> row that has the user at
  one end, in table order; \<open>DISTINCT\<close> keeps the first occurrence of each.
\<close>

definition distinct_first :: "'a list \<Rightarrow> 'a list" where
  "distinct_first xs = rev (remdups (rev xs))"

definition getRelatedUsers :: "DB \<Rightarrow> string \<Rightarrow> db_error + string list" where
  "getRelatedUsers db userID =
     (if \<not> available db then Inl ErrUnavailable
      else Inr (distinct_first (map (\<lambda>r. if fst r = userID then snd r else fst r)
                  (filter (\<lambda>r. fst r = userID \<or> snd r = userID) (followers db)))))"

subsection \<open>Read receipts\<close>

text \<open>
  \<open>updateReadMessages(readMsg)\<close>: in one transaction, for each message id of the batch, count
  the rows of \<open>message_reads\<close> for (message, user) and insert one when the count is zero.
  The insert is subject to \<open>UNIQUE(message_id, user_id)\<close> and to the foreign key on the user.
  The first argument is the reading of the clock (\<open>time.Now()\<close>).
\<close>

definition count_reads :: "DB \<Rightarrow> string \<Rightarrow> string \<Rightarrow> nat" where
  "count_reads db messageID userID =
     length (filter (\<lambda>r. read_message_id r = messageID \<and> read_user_id r = userID) (message_reads db))"

definition insert_message_read :: "DB \<Rightarrow> string \<Rightarrow> string \<Rightarrow> nat \<Rightarrow> db_error + DB" where
  "insert_message_read db messageID userID t =
     (if \<not> available db then Inl ErrUnavailable
      else if count_reads db messageID userID \<noteq> 0 then Inl ErrUnique
      else if users db userID = None then Inl ErrForeignKey
      else Inr (db\<lparr>message_reads := message_reads db @
                  [\<lparr>read_message_id = messageID, read_user_id = userID, read_at = t\<rparr>]\<rparr>))"

fun mark_read :: "nat \<Rightarrow> string \<Rightarrow> DB \<Rightarrow> string list \<Rightarrow> db_error + DB" where
  "mark_read t userID tx [] = Inr tx"
| "mark_read t userID tx (messageID # rest) =
     (if \<not> available tx then Inl ErrUnavailable
      else if count_reads tx messageID userID = 0 then
        (case insert_message_read tx messageID userID t of
           Inl e \<Rightarrow> Inl e
         | Inr tx1 \<Rightarrow> mark_read t userID tx1 rest)
      else mark_read t userID tx rest)"

definition updateReadMessages :: "nat \<Rightarrow> DB \<Rightarrow> MessagesReadMessage \<Rightarrow> db_error + DB" where
  "updateReadMessages t db readMsg =
     (if \<not> available db then Inl ErrUnavailable
      else mark_read t (ReadUserID readMsg) db (MessageIDs readMsg))"

section \<open>The connection hub (hub.go)\<close>

text \<open>
  A \<open>*Client\<close> is a pointer; the hub's maps are keyed by it. The model's client is the
  pointer (a number that tells the sessions apart) together with the immutable \<open>userID\<close>
  of the struct, compared as a whole. The field \<open>send\<close> of the struct is a buffered channel
  (\<open>make(chan []byte, 512)\<close> in \<open>ServeWS\<close>): its queue, whether it has been closed, and its
  capacity. The channels live in the world, indexed by client.
\<close>

record Client =
  ptr :: nat
  userID :: string

record Chan =
  buf :: "WSMessage list"
  is_closed :: bool
  cap :: nat

text \<open>Go panics on a send to a closed channel and on closing a channel twice.\<close>

datatype panic = SendOnClosedChannel | CloseOfClosedChannel

record Hub =
  clients :: "Client \<rightharpoonup> bool"
  userConnections :: "string \<rightharpoonup> Client list"
  typingUsers :: "string \<rightharpoonup> (string \<rightharpoonup> TypingMessage)"
  userStatus :: "(string \<times> UserStatusMessage) list"

text \<open>
  \<open>userStatus\<close> is a Go map that \<open>GetOnlineUsers\<close> ranges over; it is kept as an association
  list with one entry per key (\<open>map_of\<close> reads it, \<open>status_put\<close> is the assignment
  \<open>m[k] = v\<close>), and the range visits the entries in list order (Go leaves the order open).

  A \<open>go\<close> statement starts a goroutine that runs later, on its own. The model does not
  interleave: it records the goroutine started, in program order, in the \<open>trace\<close> of the
  world, next to the writes of the typing map. The bodies of the goroutines that the
  claims reason about are functions of their own below.

  \<open>time.Now()\<close> reads the field \<open>clock\<close> of the world; no operation of the model advances it.
\<close>

datatype goroutine =
    GoSendToUser string WSMessage
  | GoSendToUsers "string list" WSMessage
  | GoSendChatList string
  | GoBroadcastUserStatus string bool
  | GoOffline string
  | GoRefreshChatList string
  | GoUnregister Client

datatype event =
    Go goroutine
  | TypingMapWrite string string bool

record World =
  hub :: Hub
  send :: "Client \<Rightarrow> Chan"
  store :: DB
  clock :: nat
  trace :: "event list"

definition go :: "goroutine \<Rightarrow> World \<Rightarrow> World" where
  "go g w = w\<lparr>trace := trace w @ [Go g]\<rparr>"

definition connections_of :: "Hub \<Rightarrow> string \<Rightarrow> Client list" where
  "connections_of h u = (case userConnections h u of None \<Rightarrow> [] | Some cs \<Rightarrow> cs)"

fun status_put :: "string \<Rightarrow> UserStatusMessage \<Rightarrow> (string \<times> UserStatusMessage) list
    \<Rightarrow> (string \<times> UserStatusMessage) list" where
  "status_put k v [] = [(k, v)]"
| "status_put k v ((k', v') # rest) =
     (if k' = k then (k, v) # rest else (k', v') # status_put k v rest)"

definition addUserConnectionUnsafe :: "Client \<Rightarrow> Hub \<Rightarrow> Hub" where
  "addUserConnectionUnsafe client h =
     h\<lparr>userConnections := (userConnections h)
          (userID client \<mapsto> connections_of h (userID client) @ [client])\<rparr>"

text \<open>
  \<open>removeUserConnectionUnsafe\<close>: the loop removes the first occurrence of the client, when
  there is one; then a key whose list is empty (or missing) is deleted.
\<close>

definition removeUserConnectionUnsafe :: "Client \<Rightarrow> Hub \<Rightarrow> Hub" where
  "removeUserConnectionUnsafe client h =
     (let connections = connections_of h (userID client);
          h1 = (if client \<in> set connections
                then h\<lparr>userConnections := (userConnections h)
                        (userID client \<mapsto> remove1 client connections)\<rparr>
                else h)
      in if connections_of h1 (userID client) = []
         then h1\<lparr>userConnections := (userConnections h1)(userID client := None)\<rparr>
         else h1)"

definition updateUserStatus :: "string \<Rightarrow> bool \<Rightarrow> World \<Rightarrow> World" where
  "updateUserStatus u isOnline w =
     w\<lparr>hub := (hub w)\<lparr>userStatus :=
          status_put u \<lparr>StatusUserID = u, IsOnline = isOnline, LastSeen = clock w\<rparr>
            (userStatus (hub w))\<rparr>\<rparr>"

text \<open>
  \<open>SendToUser\<close>: a copy of the user's connections is taken; each one that is still in
  \<open>clients\<close> gets the message by a non-blocking send (\<open>select\<close> with \<open>default\<close>). A full
  queue starts a goroutine that hands the client to the unregister channel.
\<close>

fun deliver :: "Client list \<Rightarrow> WSMessage \<Rightarrow> World \<Rightarrow> panic + World" where
  "deliver [] message w = Inr w"
| "deliver (client # rest) message w =
     (if clients (hub w) client = None then deliver rest message w
      else if is_closed (send w client) then Inl SendOnClosedChannel
      else if length (buf (send w client)) < cap (send w client)
        then deliver rest message
               (w\<lparr>send := (send w)(client := (send w client)\<lparr>buf := buf (send w client) @ [message]\<rparr>)\<rparr>)
        else deliver rest message (go (GoUnregister client) w))"

definition SendToUser :: "string \<Rightarrow> WSMessage \<Rightarrow> World \<Rightarrow> panic + World" where
  "SendToUser u message w =
     (let connections = connections_of (hub w) u
      in if length connections = 0 then Inr w else deliver connections message w)"

text \<open>\<open>SendToUsers\<close>: one \<open>go h.SendToUser(userID, message)\<close> per user, in the order of the slice.\<close>

definition SendToUsers :: "string list \<Rightarrow> WSMessage \<Rightarrow> World \<Rightarrow> World" where
  "SendToUsers userIDs message w = foldl (\<lambda>w' u. go (GoSendToUser u message) w') w userIDs"

text \<open>
  \<open>broadcastUserStatus\<close>: the related users are read from the store (an error returns);
  one goroutine sends the status update to all of them, and one goroutine per related
  user refreshes that user's chat list.
\<close>

definition broadcastUserStatus :: "string \<Rightarrow> bool \<Rightarrow> World \<Rightarrow> World" where
  "broadcastUserStatus u isOnline w =
     (case getRelatedUsers (store w) u of
        Inl e \<Rightarrow> w
      | Inr relatedUsers \<Rightarrow>
          (let message = \<lparr>WSType = TypeUserStatusUpdate,
                          Data = StatusData \<lparr>StatusUserID = u, IsOnline = isOnline, LastSeen = clock w\<rparr>,
                          WSTimestamp = clock w\<rparr>
           in foldl (\<lambda>w' target. go (GoRefreshChatList target) w')
                (go (GoSendToUsers relatedUsers message) w) relatedUsers))"

text \<open>
  \<open>handleRegister\<close>: under the lock the client enters \<open>clients\<close> and the user's connection
  list; then the user is marked online, and two goroutines are started: the chat list for
  the new user, and \<open>broadcastUserStatus(client.userID, true)\<close>.
\<close>

definition handleRegister :: "Client \<Rightarrow> World \<Rightarrow> World" where
  "handleRegister client w =
     (let w1 = w\<lparr>hub := addUserConnectionUnsafe client ((hub w)\<lparr>clients := (clients (hub w))(client \<mapsto> True)\<rparr>)\<rparr>;
          w2 = updateUserStatus (userID client) True w1;
          w3 = go (GoSendChatList (userID client)) w2
      in go (GoBroadcastUserStatus (userID client) True) w3)"

text \<open>
  \<open>handleUnregister\<close>. The \<open>select\<close> on \<open>client.send\<close> takes its receive case whenever a
  receive can proceed: when the channel is closed, and also when its queue holds a
  message (which the receive takes out). Only otherwise does \<open>default\<close> close the channel.
  The goroutine started when the user has no connection left runs \<open>go_offline\<close>.
\<close>

definition close_chan :: "Chan \<Rightarrow> panic + Chan" where
  "close_chan ch = (if is_closed ch then Inl CloseOfClosedChannel else Inr (ch\<lparr>is_closed := True\<rparr>))"

definition handleUnregister :: "Client \<Rightarrow> World \<Rightarrow> panic + World" where
  "handleUnregister client w =
     (if clients (hub w) client = None then Inr w
      else
        let h1 = removeUserConnectionUnsafe client ((hub w)\<lparr>clients := (clients (hub w))(client := None)\<rparr>);
            ch = send w client;
            closing = (if buf ch \<noteq> [] then Inr (ch\<lparr>buf := tl (buf ch)\<rparr>)
                       else if is_closed ch then Inr ch
                       else close_chan ch)
        in case closing of
             Inl p \<Rightarrow> Inl p
           | Inr ch' \<Rightarrow>
               (let w1 = w\<lparr>hub := h1, send := (send w)(client := ch')\<rparr>
                in if length (connections_of h1 (userID client)) = 0
                   then Inr (go (GoOffline (userID client)) w1)
                   else Inr w1))"

definition go_offline :: "string \<Rightarrow> World \<Rightarrow> World" where
  "go_offline u w = broadcastUserStatus u False (updateUserStatus u False w)"

text \<open>
  \<open>HandleTyping(chatID, userID, nickName, isTyping)\<close>: the participants are read from the
  store (an error returns before anything is sent or written), \<open>SendToUsers\<close> hands the
  typing message to one goroutine per participant, and then, under the lock, the typing
  map is written: the entry is stored when \<open>isTyping\<close>, deleted otherwise, and a chat whose
  inner map became empty is deleted. \<open>json.Marshal\<close> cannot fail on these structs.
\<close>

definition HandleTyping :: "string \<Rightarrow> string \<Rightarrow> string \<Rightarrow> bool \<Rightarrow> World \<Rightarrow> World" where
  "HandleTyping chatID u nickName isTyping w =
     (let typingMessage = \<lparr>UserID = u, NickName = nickName, TypingChatID = chatID, IsTyping = isTyping\<rparr>;
          message = \<lparr>WSType = TypeTyping, Data = TypingData [typingMessage], WSTimestamp = clock w\<rparr>
      in case getChatParticipants (store w) chatID of
           Inl e \<Rightarrow> w
         | Inr participants \<Rightarrow>
             (let w1 = SendToUsers participants message w;
                  inner = (case typingUsers (hub w1) chatID of None \<Rightarrow> Map.empty | Some m \<Rightarrow> m);
                  typing = (if isTyping
                            then (typingUsers (hub w1))(chatID \<mapsto> inner(u \<mapsto> typingMessage))
                            else if inner(u := None) = Map.empty
                              then (typingUsers (hub w1))(chatID := None)
                              else (typingUsers (hub w1))(chatID \<mapsto> inner(u := None)))
              in w1\<lparr>hub := (hub w1)\<lparr>typingUsers := typing\<rparr>,
                     trace := trace w1 @ [TypingMapWrite chatID u isTyping]\<rparr>))"

text \<open>
  \<open>GetOnlineUsers(requestingUserID)\<close>: nil when the related users cannot be read; otherwise
  the keys of \<open>userStatus\<close> that are online, are not the requester and are related.
\<close>

definition GetOnlineUsers :: "string \<Rightarrow> World \<Rightarrow> string list" where
  "GetOnlineUsers requestingUserID w =
     (case getRelatedUsers (store w) requestingUserID of
        Inl e \<Rightarrow> []
      | Inr relatedUsers \<Rightarrow>
          map fst (filter (\<lambda>entry. IsOnline (snd entry) \<and> fst entry \<noteq> requestingUserID \<and>
                                    fst entry \<in> set relatedUsers)
                     (userStatus (hub w))))"

section \<open>The client session's handlers (chat.go, gifMsg.go)\<close>

text \<open>
  A handler gets the \<open>data\<close> of the envelope decoded into a \<open>ChatMessage\<close>; \<open>None\<close> stands
  for a payload that does not decode. A handler that returns early leaves the world as it
  is. \<open>strings.Contains\<close> is \<open>sublist\<close>.
\<close>

definition isValidGifMessage :: "ChatMessage \<Rightarrow> bool" where
  "isValidGifMessage gifMsg =
     (if Content gifMsg = [] then False
      else if sublist ''tenor.com'' (Content gifMsg) then True
      else False)"

definition sendGifError :: "Client \<Rightarrow> string \<Rightarrow> World \<Rightarrow> panic + World" where
  "sendGifError c message w =
     SendToUser (userID c)
       \<lparr>WSType = TypeGif, Data = ErrorData message ''media_error'', WSTimestamp = clock w\<rparr> w"

text \<open>
  The sender lookup of both handlers:
  \<open>SELECT first_name || ' ' || last_name, COALESCE(avatar_path, '') FROM users WHERE id = ?\<close>.
\<close>

definition sender_info :: "DB \<Rightarrow> string \<Rightarrow> db_error + (string \<times> string)" where
  "sender_info db u =
     (if \<not> available db then Inl ErrUnavailable
      else case users db u of
        None \<Rightarrow> Inl ErrNoRows
      | Some r \<Rightarrow> Inr (first_name r @ '' '' @ last_name r,
                       (case avatar_path r of None \<Rightarrow> [] | Some a \<Rightarrow> a)))"

definition handleGifMessage :: "Client \<Rightarrow> ChatMessage option \<Rightarrow> World \<Rightarrow> panic + World" where
  "handleGifMessage c data w =
     (case data of
        None \<Rightarrow> Inr w
      | Some decoded \<Rightarrow>
          if \<not> isValidGifMessage decoded then sendGifError c ''Invalid GIF message'' w
          else
            let gifMsg = decoded\<lparr>Timestamp := clock w, SenderID := userID c, MessageType := ''media''\<rparr>
            in case sender_info (store w) (userID c) of
                 Inl e \<Rightarrow> Inr w
               | Inr (senderName, senderAvatar) \<Rightarrow>
                   (let gifMsg = gifMsg\<lparr>SenderName := senderName, SenderAvatar := senderAvatar\<rparr>;
                        saved = (if RecipientID gifMsg \<noteq> [] then Some (SaveMessageAndGetIDs (store w) gifMsg [])
                                 else if GroupID gifMsg \<noteq> []
                                   then Some (SaveMessageAndGetIDs (store w) gifMsg (GroupID gifMsg))
                                 else None)
                    in case saved of
                         None \<Rightarrow> Inr w
                       | Some (Inl e) \<Rightarrow> Inr w
                       | Some (Inr (chatID, messageID, db')) \<Rightarrow>
                           (let gifMsg = gifMsg\<lparr>ChatID := FormatInt chatID, ID := FormatInt messageID\<rparr>;
                                message = \<lparr>WSType = TypeGif, Data = ChatData gifMsg, WSTimestamp = clock w\<rparr>;
                                w1 = w\<lparr>store := db'\<rparr>
                            in if RecipientID gifMsg \<noteq> [] then
                                 (case SendToUser (RecipientID gifMsg) message w1 of
                                    Inl p \<Rightarrow> Inl p
                                  | Inr w2 \<Rightarrow> SendToUser (userID c) message w2)
                               else Inr w1)))"

text \<open>
  \<open>sendMessageToRecipients\<close>: a message with a recipient goes to the recipient and back to
  the sender; otherwise a message with a group goes to the participants of its chat.
\<close>

definition sendMessageToRecipients :: "Client \<Rightarrow> ChatMessage \<Rightarrow> World \<Rightarrow> panic + World" where
  "sendMessageToRecipients c chatMsg w =
     (let message = \<lparr>WSType = TypeChat, Data = ChatData chatMsg, WSTimestamp = clock w\<rparr>
      in if RecipientID chatMsg \<noteq> [] then
           (case SendToUser (RecipientID chatMsg) message w of
              Inl p \<Rightarrow> Inl p
            | Inr w1 \<Rightarrow> SendToUser (SenderID chatMsg) message w1)
         else if GroupID chatMsg \<noteq> [] then
           (case getChatParticipants (store w) (ChatID chatMsg) of
              Inl e \<Rightarrow> Inr w
            | Inr participants \<Rightarrow> Inr (SendToUsers participants message w))
         else Inr w)"

definition handleChatMessage :: "Client \<Rightarrow> ChatMessage option \<Rightarrow> World \<Rightarrow> panic + World" where
  "handleChatMessage c data w =
     (case data of
        None \<Rightarrow> Inr w
      | Some decoded \<Rightarrow>
          let chatMsg = decoded\<lparr>Timestamp := clock w, SenderID := userID c\<rparr>;
              chatMsg = (if MessageType chatMsg \<noteq> ''text'' \<and> MessageType chatMsg \<noteq> ''emoji'' \<and>
                            MessageType chatMsg \<noteq> ''media'' \<and> MessageType chatMsg \<noteq> ''gif''
                         then chatMsg\<lparr>MessageType := ''text''\<rparr> else chatMsg)
          in case sender_info (store w) (userID c) of
               Inl e \<Rightarrow> Inr w
             | Inr (senderName, senderAvatar) \<Rightarrow>
                 (let chatMsg = chatMsg\<lparr>SenderName := senderName, SenderAvatar := senderAvatar\<rparr>
                  in case SaveMessageAndGetIDs (store w) chatMsg (GroupID chatMsg) of
                       Inl e \<Rightarrow> Inr w
                     | Inr (chatID, messageID, db') \<Rightarrow>
                         sendMessageToRecipients c
                           (chatMsg\<lparr>ChatID := FormatInt chatID, ID := FormatInt messageID\<rparr>)
                           (w\<lparr>store := db'\<rparr>)))"

section \<open>Vocabulary of the properties\<close>

text \<open>
  A store is well-formed when no thread and no participant row carries an identifier
  beyond the sequence counter of \<open>chat_threads\<close>: identifiers come from the counter only.
\<close>

definition db_wf :: "DB \<Rightarrow> bool" where
  "db_wf db \<longleftrightarrow>
     list_all (\<lambda>r. fst r \<le> thread_seq db) (chat_participants db) \<and>
     list_all (\<lambda>ct. thread_id ct \<le> thread_seq db) (chat_threads db)"

text \<open>The engine reads a decimal numeral as the number it denotes.\<close>

definition decimal_ok :: "DB \<Rightarrow> bool" where
  "decimal_ok db \<longleftrightarrow> (\<forall>n. text_to_integer db (FormatInt n) = Some n)"

text \<open>The store after a private thread for \<open>a\<close> and \<open>b\<close> has been created.\<close>

definition created_db :: "DB \<Rightarrow> string \<Rightarrow> string \<Rightarrow> DB" where
  "created_db db a b =
     db\<lparr>chat_threads := chat_threads db @
            [\<lparr>thread_id = Suc (thread_seq db), is_group = False, group_id = None\<rparr>],
        thread_seq := Suc (thread_seq db),
        chat_participants := chat_participants db @
            [(Suc (thread_seq db), a), (Suc (thread_seq db), b)]\<rparr>"

text \<open>The constraint \<open>UNIQUE(message_id, user_id)\<close> of \<open>message_reads\<close>.\<close>

definition read_key :: "ReadRow \<Rightarrow> string \<times> string" where
  "read_key r = (read_message_id r, read_user_id r)"

definition reads_unique :: "DB \<Rightarrow> bool" where
  "reads_unique db \<longleftrightarrow> distinct (map read_key (message_reads db))"

text \<open>
  A small store for the examples: three users, one group with two members, one private
  thread (alice and carol), one read receipt, one follow edge.
\<close>

definition example_db :: DB where
  "example_db =
     \<lparr>available = True,
      text_to_integer = decimal_value,
      users = [''alice'' \<mapsto> \<lparr>first_name = ''Alice'', last_name = ''A'', avatar_path = None\<rparr>,
               ''bob'' \<mapsto> \<lparr>first_name = ''Bob'', last_name = ''B'', avatar_path = Some ''/b.png''\<rparr>,
               ''carol'' \<mapsto> \<lparr>first_name = ''Carol'', last_name = ''C'', avatar_path = None\<rparr>],
      groups = [1],
      group_memberships = [(1, ''alice''), (1, ''bob'')],
      chat_threads = [\<lparr>thread_id = 1, is_group = False, group_id = None\<rparr>],
      thread_seq = 1,
      chat_participants = [(1, ''alice''), (1, ''carol'')],
      messages = [],
      message_seq = 0,
      message_reads = [\<lparr>read_message_id = ''5'', read_user_id = ''carol'', read_at = 3\<rparr>],
      followers = [(''alice'', ''bob'')]\<rparr>"

text \<open>
  What the presence claim asks of a disconnected user: no entry in the presence map and
  no entry in any typing map.
\<close>

definition user_pruned :: "string \<Rightarrow> Hub \<Rightarrow> bool" where
  "user_pruned u h \<longleftrightarrow>
     map_of (userStatus h) u = None \<and> (\<forall>chat m. typingUsers h chat = Some m \<longrightarrow> m u = None)"

text \<open>Registering \<open>c\<close> in \<open>w\<close> starts the goroutine that broadcasts the user's presence.\<close>

definition register_broadcasts :: "Client \<Rightarrow> World \<Rightarrow> bool" where
  "register_broadcasts c w \<longleftrightarrow>
     Go (GoBroadcastUserStatus (userID c) True) \<in> set (drop (length (trace w)) (trace (handleRegister c w)))"

text \<open>The social graph: \<open>u\<close> follows \<open>v\<close> or is followed by \<open>v\<close>.\<close>

definition related :: "DB \<Rightarrow> string \<Rightarrow> string \<Rightarrow> bool" where
  "related db u v \<longleftrightarrow> (u, v) \<in> set (followers db) \<or> (v, u) \<in> set (followers db)"

definition is_online :: "Hub \<Rightarrow> string \<Rightarrow> bool" where
  "is_online h v \<longleftrightarrow> (\<exists>st. (v, st) \<in> set (userStatus h) \<and> IsOnline st)"

text \<open>
  The users a trace entry sends to, and the users that \<open>broadcastUserStatus\<close> sends to:
  the targets of the goroutines it starts.
\<close>

fun targets_of :: "event \<Rightarrow> string list" where
  "targets_of (Go (GoSendToUsers us m)) = us"
| "targets_of (Go (GoSendToUser u m)) = [u]"
| "targets_of (Go (GoRefreshChatList u)) = [u]"
| "targets_of (Go (GoSendChatList u)) = [u]"
| "targets_of (Go (GoBroadcastUserStatus u b)) = []"
| "targets_of (Go (GoOffline u)) = []"
| "targets_of (Go (GoUnregister c)) = []"
| "targets_of (TypingMapWrite chat u b) = []"

definition presence_recipients :: "string \<Rightarrow> bool \<Rightarrow> World \<Rightarrow> string list" where
  "presence_recipients u isOnline w =
     concat (map targets_of (drop (length (trace w)) (trace (broadcastUserStatus u isOnline w))))"

text \<open>
  Every registered client has an open channel. The hub keeps it so: it closes a channel
  only after the client has left \<open>clients\<close>.
\<close>

definition chans_open :: "World \<Rightarrow> bool" where
  "chans_open w \<longleftrightarrow> (\<forall>c. clients (hub w) c \<noteq> None \<longrightarrow> \<not> is_closed (send w c))"

subsection \<open>Example sessions\<close>

definition alice1 :: Client where "alice1 = \<lparr>ptr = 1, userID = ''alice''\<rparr>"
definition alice2 :: Client where "alice2 = \<lparr>ptr = 2, userID = ''alice''\<rparr>"
definition bob1 :: Client where "bob1 = \<lparr>ptr = 3, userID = ''bob''\<rparr>"
definition carol1 :: Client where "carol1 = \<lparr>ptr = 4, userID = ''carol''\<rparr>"

text \<open>A fresh hub over the example store; every channel empty, open, of capacity 512.\<close>

definition example_world :: World where
  "example_world =
     \<lparr>hub = \<lparr>clients = Map.empty, userConnections = Map.empty, typingUsers = Map.empty, userStatus = []\<rparr>,
      send = (\<lambda>c. \<lparr>buf = [], is_closed = False, cap = 512\<rparr>),
      store = example_db,
      clock = 10,
      trace = []\<rparr>"

definition alice_online :: World where
  "alice_online = handleRegister alice1 example_world"

definition alice_typing :: World where
  "alice_typing = HandleTyping ''1'' ''alice'' ''Al'' True alice_online"

definition all_online :: World where
  "all_online = handleRegister carol1 (handleRegister bob1 alice_online)"

definition example_frame :: WSMessage where
  "example_frame = \<lparr>WSType = TypeChat, Data = ErrorData ''hello'' ''note'', WSTimestamp = 10\<rparr>"

text \<open>Alice's only session, with one message waiting in its queue.\<close>

definition alice_queued :: World where
  "alice_queued = alice_online\<lparr>send := (send alice_online)
      (alice1 := \<lparr>buf = [example_frame], is_closed = False, cap = 512\<rparr>)\<rparr>"

text \<open>Three inbound payloads: a gif for group 1, a gif from an untrusted host, a chat
  message of an unknown type.\<close>

definition group_gif :: ChatMessage where
  "group_gif =
     \<lparr>ID = [], ChatID = [], SenderID = [], SenderName = [], SenderAvatar = [],
      Content = ''https://tenor.com/view/cat.gif'', MessageType = ''gif'', Timestamp = 0,
      IsRead = False, RecipientID = [], GroupID = ''1''\<rparr>"

definition bad_gif :: ChatMessage where
  "bad_gif =
     \<lparr>ID = [], ChatID = [], SenderID = [], SenderName = [], SenderAvatar = [],
      Content = ''https://evil.example/cat.gif'', MessageType = ''gif'', Timestamp = 0,
      IsRead = False, RecipientID = ''bob'', GroupID = []\<rparr>"

definition odd_type_message :: ChatMessage where
  "odd_type_message =
     \<lparr>ID = [], ChatID = [], SenderID = [], SenderName = [], SenderAvatar = [],
      Content = ''hi bob'', MessageType = ''sticker'', Timestamp = 0,
      IsRead = False, RecipientID = ''bob'', GroupID = []\<rparr>"

text \<open>The example store after alice's first message to group 1 has been saved.\<close>

definition group_thread_db :: "ChatMessage \<Rightarrow> DB" where
  "group_thread_db msg =
     example_db\<lparr>chat_threads := chat_threads example_db @ [\<lparr>thread_id = 2, is_group = True, group_id = Some 1\<rparr>],
       thread_seq := 2,
       chat_participants := chat_participants example_db @ [(2, ''alice''), (2, ''bob'')],
       messages := [\<lparr>message_id = 1, chat_id = 2, sender_id = ''alice'', content = Content msg,
                     message_type = MessageType msg, created_at = Timestamp msg\<rparr>],
       message_seq := 1\<rparr>"

subsection \<open>Frames, delivery and the media allow-list\<close>

text \<open>What resolving a thread leaves alone in the store.\<close>

definition same_but_threads :: "DB \<Rightarrow> DB \<Rightarrow> bool" where
  "same_but_threads db tx \<longleftrightarrow>
     messages tx = messages db \<and> message_seq tx = message_seq db \<and> users tx = users db \<and>
     available tx = available db \<and> text_to_integer tx = text_to_integer db \<and>
     groups tx = groups db \<and> group_memberships tx = group_memberships db"

text \<open>Every membership row names an existing user (the foreign key of \<open>group_memberships\<close>).\<close>

definition members_exist :: "DB \<Rightarrow> bool" where
  "members_exist db \<longleftrightarrow> list_all (\<lambda>r. users db (snd r) \<noteq> None) (group_memberships db)"

text \<open>
  The envelope that \<open>handleChatMessage\<close> fans out for a message \<open>m\<close> of an unknown type sent
  through session \<open>c\<close>: the message stamped with the clock, the sender and the sender's
  display data, with type \<open>text\<close> and the identifiers the store assigned.
\<close>

definition text_frame :: "Client \<Rightarrow> World \<Rightarrow> ChatMessage \<Rightarrow> UserRow \<Rightarrow> nat \<Rightarrow> nat \<Rightarrow> WSMessage" where
  "text_frame c w m sender chatID messageID =
     \<lparr>WSType = TypeChat,
      Data = ChatData (m\<lparr>Timestamp := clock w, SenderID := userID c, MessageType := ''text'',
                         SenderName := first_name sender @ '' '' @ last_name sender,
                         SenderAvatar := (case avatar_path sender of None \<Rightarrow> [] | Some a \<Rightarrow> a),
                         ChatID := FormatInt chatID, ID := FormatInt messageID\<rparr>),
      WSTimestamp = clock w\<rparr>"



text \<open>
  The gif claim's validation, in the spec's words: the payload's URL is on an allow-list
  of trusted media domains. The host is what stands between the scheme and the first of
  \<open>/ ? # :\<close>; it is trusted when it is a listed domain or a subdomain of one. The list holds
  the one domain the code names.
\<close>

definition url_host :: "string \<Rightarrow> string" where
  "url_host url =
     takeWhile (\<lambda>ch. ch \<notin> set ''/?#:'')
       (if prefix ''https://'' url then drop 8 url
        else if prefix ''http://'' url then drop 7 url
        else url)"

definition trusted_media_domains :: "string list" where
  "trusted_media_domains = [''tenor.com'']"

definition on_allow_list :: "string \<Rightarrow> bool" where
  "on_allow_list url =
     list_ex (\<lambda>d. url_host url = d \<or> suffix (CHR ''.'' # d) (url_host url)) trusted_media_domains"

text \<open>A gif for bob whose URL is on another host and only mentions the trusted domain.\<close>

definition evil_gif :: ChatMessage where
  "evil_gif =
     \<lparr>ID = [], ChatID = [], SenderID = [], SenderName = [], SenderAvatar = [],
      Content = ''https://evil.example/cat.gif?from=tenor.com'', MessageType = ''gif'', Timestamp = 0,
      IsRead = False, RecipientID = ''bob'', GroupID = []\<rparr>"

text \<open>The envelope of that gif once alice has sent it in the example session.\<close>

definition evil_gif_frame :: WSMessage where
  "evil_gif_frame =
     \<lparr>WSType = TypeGif,
      Data = ChatData (evil_gif\<lparr>Timestamp := 10, SenderID := ''alice'', MessageType := ''media'',
                                SenderName := ''Alice A'', SenderAvatar := [],
                                ChatID := ''2'', ID := ''1''\<rparr>),
      WSTimestamp = 10\<rparr>"

section \<open>Properties\<close>

subsection \<open>Decimal identifiers\<close>

lemma roundtrip_aux: "digits_value acc (xs @ [digit_char d]) = (case digits_value acc xs of None \<Rightarrow> None | Some v \<Rightarrow> (case digit_val (digit_char d) of None \<Rightarrow> None | Some e \<Rightarrow> Some (10 * v + e)))"
  by (induction xs arbitrary: acc) (auto split: option.splits)

lemma digit_val_char: "d < 10 \<Longrightarrow> digit_val (digit_char d) = Some d"
proof -
  assume "d < 10"
  then have "d = 0 \<or> d = 1 \<or> d = 2 \<or> d = 3 \<or> d = 4 \<or> d = 5 \<or> d = 6 \<or> d = 7 \<or> d = 8 \<or> d = 9"
    by arith
  then show ?thesis
    by (elim disjE) (simp_all add: digit_val_def digit_char_def)
qed

lemma FormatInt_ne: "FormatInt n \<noteq> []"
  by (subst FormatInt.simps) simp

lemma digits_FormatInt: "digits_value 0 (FormatInt n) = Some n"
proof (induction n rule: FormatInt.induct)
  case (1 n)
  show ?case
  proof (cases "n < 10")
    case True
    then show ?thesis by (subst FormatInt.simps) (simp add: digit_val_char)
  next
    case False
    then have "digits_value 0 (FormatInt (n div 10)) = Some (n div 10)" using 1 by simp
    then show ?thesis using False
      by (subst FormatInt.simps) (simp add: roundtrip_aux digit_val_char)
  qed
qed

lemma decimal_value_FormatInt: "decimal_value (FormatInt n) = Some n"
  by (simp add: decimal_value_def FormatInt_ne digits_FormatInt)

subsection \<open>Find-or-create of the private thread\<close>

lemma private_threads_sym: "private_threads db a b = private_threads db b a"
  by (auto simp: private_threads_def private_thread_matches_def intro!: arg_cong[where f="map thread_id"] filter_cong)

lemma found: "available db \<Longrightarrow> private_threads db a b = t # ts \<Longrightarrow> getOrCreatePrivateChatThread db a b = Inr (t, db)"
  by (simp add: getOrCreatePrivateChatThread_def)

lemma fresh_part: "db_wf db \<Longrightarrow> (Suc (thread_seq db), u) \<notin> set (chat_participants db)"
  by (auto simp: db_wf_def list_all_iff)

lemma created:
  assumes "db_wf db" "available db" "users db a \<noteq> None" "users db b \<noteq> None" "a \<noteq> b"
    and "private_threads db a b = []"
  shows "getOrCreatePrivateChatThread db a b = Inr (Suc (thread_seq db), created_db db a b)"
  using assms fresh_part[of db]
  by (auto simp: getOrCreatePrivateChatThread_def insert_chat_thread_def insert_participants_def
      participant_keys_ok_def created_db_def Let_def)

text \<open>
  The two arguments may be one and the same user (a message addressed to oneself). Then
  no thread can be created: the second participant row repeats the first and the primary
  key rejects the statement.
\<close>

lemma self_thread_rejected:
  assumes "available db" "users db a \<noteq> None" "private_threads db a a = []"
    "(Suc (thread_seq db), a) \<notin> set (chat_participants db)"
  shows "getOrCreatePrivateChatThread db a a = Inl ErrPrimaryKey"
  using assms
  by (auto simp: getOrCreatePrivateChatThread_def insert_chat_thread_def insert_participants_def Let_def)

lemma created_db_wf: "db_wf db \<Longrightarrow> db_wf (created_db db a b)"
  by (auto simp: db_wf_def created_db_def list_all_iff)

lemma participants_old:
  assumes "db_wf db" "c \<le> thread_seq db"
  shows "participants_of (created_db db a b) c = participants_of db c"
  using assms by (auto simp: participants_of_def created_db_def)

lemma participants_new:
  assumes "db_wf db"
  shows "participants_of (created_db db a b) (Suc (thread_seq db)) = [a, b]"
proof -
  have "filter (\<lambda>r. fst r = Suc (thread_seq db)) (chat_participants db) = []"
    using assms by (auto simp: db_wf_def list_all_iff filter_empty_conv)
  then show ?thesis by (simp add: participants_of_def created_db_def)
qed

lemma matches_old:
  assumes "db_wf db" "ct \<in> set (chat_threads db)"
  shows "private_thread_matches (created_db db a b) x y ct = private_thread_matches db x y ct"
proof -
  have le: "thread_id ct \<le> thread_seq db" using assms by (auto simp: db_wf_def list_all_iff)
  then have "participants_of (created_db db a b) (thread_id ct) = participants_of db (thread_id ct)"
    using assms participants_old by blast
  moreover have "\<And>u. ((thread_id ct, u) \<in> set (chat_participants (created_db db a b))) = ((thread_id ct, u) \<in> set (chat_participants db))"
    using le by (auto simp: created_db_def)
  ultimately show ?thesis by (simp add: private_thread_matches_def)
qed

lemma private_threads_created:
  assumes "db_wf db" "private_threads db a b = []"
  shows "private_threads (created_db db a b) a b = [Suc (thread_seq db)]"
proof -
  have old: "filter (private_thread_matches (created_db db a b) a b) (chat_threads db) = filter (private_thread_matches db a b) (chat_threads db)"
    using assms(1) by (intro filter_cong) (auto simp: matches_old)
  have new: "private_thread_matches (created_db db a b) a b \<lparr>thread_id = Suc (thread_seq db), is_group = False, group_id = None\<rparr>"
    using participants_new[OF assms(1), of a b] by (simp add: private_thread_matches_def) (simp add: created_db_def)
  have "chat_threads (created_db db a b) = chat_threads db @ [\<lparr>thread_id = Suc (thread_seq db), is_group = False, group_id = None\<rparr>]"
    by (simp add: created_db_def)
  then show ?thesis using old new assms(2) by (simp add: private_threads_def)
qed

lemma thread_of_private: "t \<in> set (private_threads db a b) \<Longrightarrow> t \<in> thread_id ` set (chat_threads db)"
  by (auto simp: private_threads_def)

lemma room_by_id:
  assumes "available db" "t \<in> thread_id ` set (chat_threads db)"
  shows "\<exists>room. getChatRoomByID db t u = Inr room \<and> RoomID room = FormatInt t"
proof -
  from assms(2) have "filter (\<lambda>ct. thread_id ct = t) (chat_threads db) \<noteq> []"
    by (auto simp: filter_empty_conv)
  then obtain ct rest where f: "filter (\<lambda>ct. thread_id ct = t) (chat_threads db) = ct # rest"
    by (cases "filter (\<lambda>ct. thread_id ct = t) (chat_threads db)") auto
  then have "ct \<in> set (filter (\<lambda>ct. thread_id ct = t) (chat_threads db))" by simp
  then have "thread_id ct = t" by simp
  then show ?thesis using assms(1) f
    by (simp add: getChatRoomByID_def getChatParticipants_def Let_def split: option.splits)
qed

lemma goc_found:
  assumes "available db" "private_threads db a b = t # ts"
  shows "\<exists>room. GetOrCreatePrivateChat db a b = (Inr room, db) \<and> RoomID room = FormatInt t"
proof -
  have "t \<in> thread_id ` set (chat_threads db)"
    using assms(2) thread_of_private[of t db a b] by simp
  then obtain room where r: "\<And>u. \<exists>room. getChatRoomByID db t u = Inr room \<and> RoomID room = FormatInt t"
    using room_by_id[OF assms(1)] by blast
  have sym: "private_threads db b a = t # ts" using assms(2) private_threads_sym by metis
  show ?thesis using assms r sym
    by (simp add: GetOrCreatePrivateChat_def Let_def)
qed

lemma created_available: "available (created_db db a b) = available db"
  by (simp add: created_db_def)

lemma created_thread_mem: "Suc (thread_seq db) \<in> thread_id ` set (chat_threads (created_db db a b))"
  by (simp add: created_db_def)

lemma goc_created:
  assumes "db_wf db" "available db" "users db a \<noteq> None" "users db b \<noteq> None" "a \<noteq> b"
    and "private_threads db a b = []"
  shows "\<exists>room. GetOrCreatePrivateChat db a b =
            (Inr room, created_db db (if a > b then b else a) (if a > b then a else b))
          \<and> RoomID room = FormatInt (Suc (thread_seq db))"
proof -
  let ?u1 = "if a > b then b else a" and ?u2 = "if a > b then a else b"
  have none: "private_threads db ?u1 ?u2 = []" using assms(6) private_threads_sym[of db a b] by simp
  have ins: "insert_participants
      (db\<lparr>chat_threads := chat_threads db @ [\<lparr>thread_id = Suc (thread_seq db), is_group = False, group_id = None\<rparr>],
          thread_seq := Suc (thread_seq db)\<rparr>)
      [(Suc (thread_seq db), ?u1), (Suc (thread_seq db), ?u2)] = Inr (created_db db ?u1 ?u2)"
    using assms fresh_part[of db] by (auto simp: insert_participants_def participant_keys_ok_def created_db_def)
  obtain room where "getChatRoomByID (created_db db ?u1 ?u2) (Suc (thread_seq db)) ?u1 = Inr room"
     "RoomID room = FormatInt (Suc (thread_seq db))"
    using room_by_id[of "created_db db ?u1 ?u2" "Suc (thread_seq db)" ?u1] assms(2)
      created_available created_thread_mem by blast
  then show ?thesis using assms(2) none ins
    by (simp add: GetOrCreatePrivateChat_def insert_chat_thread_def Let_def)
qed

lemma goc_repeat:
  assumes "db_wf db" "available db" "users db a \<noteq> None" "users db b \<noteq> None" "a \<noteq> b"
  shows "\<exists>room db2. GetOrCreatePrivateChat db a b = (Inr room, db2)
           \<and> (\<exists>room'. GetOrCreatePrivateChat db2 a b = (Inr room', db2) \<and> RoomID room' = RoomID room)
           \<and> (\<exists>room'. GetOrCreatePrivateChat db2 b a = (Inr room', db2) \<and> RoomID room' = RoomID room)
           \<and> length (private_threads db2 a b) = max 1 (length (private_threads db a b))"
proof (cases "private_threads db a b")
  case Nil
  let ?u1 = "if a > b then b else a" and ?u2 = "if a > b then a else b"
  let ?t = "Suc (thread_seq db)" and ?db = "created_db db ?u1 ?u2"
  obtain room where r: "GetOrCreatePrivateChat db a b = (Inr room, ?db)" "RoomID room = FormatInt ?t"
    using goc_created[OF assms Nil] by blast
  have none: "private_threads db ?u1 ?u2 = []" using Nil private_threads_sym[of db a b] by simp
  have "private_threads ?db ?u1 ?u2 = [?t]" using private_threads_created[OF assms(1) none] .
  then have p: "private_threads ?db a b = [?t]" and p': "private_threads ?db b a = [?t]"
    using private_threads_sym[of ?db a b] by (auto split: if_splits)
  have av: "available ?db" using assms(2) created_available by simp
  show ?thesis
    using r p Nil goc_found[OF av p] goc_found[OF av p']
    by (intro exI[of _ room] exI[of _ ?db]) simp
next
  case (Cons t ts)
  have p': "private_threads db b a = t # ts" using Cons private_threads_sym by metis
  obtain room where r: "GetOrCreatePrivateChat db a b = (Inr room, db)" "RoomID room = FormatInt t"
    using goc_found[OF assms(2) Cons] by blast
  show ?thesis
    using r Cons goc_found[OF assms(2) Cons] goc_found[OF assms(2) p']
    by (intro exI[of _ room] exI[of _ db]) simp
qed

lemma thread_repeat:
  assumes "db_wf db" "available db" "users db a \<noteq> None" "users db b \<noteq> None" "a \<noteq> b"
  shows "\<exists>t db'. getOrCreatePrivateChatThread db a b = Inr (t, db')
           \<and> getOrCreatePrivateChatThread db' a b = Inr (t, db')
           \<and> getOrCreatePrivateChatThread db' b a = Inr (t, db')
           \<and> (\<exists>room. GetOrCreatePrivateChat db' a b = (Inr room, db') \<and> RoomID room = FormatInt t)
           \<and> (\<exists>room. GetOrCreatePrivateChat db' b a = (Inr room, db') \<and> RoomID room = FormatInt t)
           \<and> (if private_threads db a b = []
                then private_threads db' a b = [t] \<and> participants_of db' t = [a, b]
                  \<and> chat_threads db' = chat_threads db @ [\<lparr>thread_id = t, is_group = False, group_id = None\<rparr>]
                else db' = db)
           \<and> length (private_threads db' a b) = max 1 (length (private_threads db a b))"
proof (cases "private_threads db a b")
  case Nil
  let ?t = "Suc (thread_seq db)" and ?db = "created_db db a b"
  have c: "getOrCreatePrivateChatThread db a b = Inr (?t, ?db)" using created[OF assms Nil] .
  have p: "private_threads ?db a b = [?t]" using private_threads_created[OF assms(1) Nil] .
  have p': "private_threads ?db b a = [?t]" using p private_threads_sym by metis
  have av: "available ?db" using assms(2) created_available by simp
  show ?thesis
    using c p Nil found[OF av p] found[OF av p'] goc_found[OF av p] goc_found[OF av p']
      participants_new[OF assms(1), of a b]
    by (intro exI[of _ ?t] exI[of _ ?db]) (simp add: created_db_def)
next
  case (Cons t ts)
  have p': "private_threads db b a = t # ts" using Cons private_threads_sym by metis
  show ?thesis
    using Cons found[OF assms(2) Cons] found[OF assms(2) p'] goc_found[OF assms(2) Cons] goc_found[OF assms(2) p']
    by (intro exI[of _ t] exI[of _ db]) simp
qed

text \<open>
  Claim C1. For two distinct users of a well-formed store that answers, find-or-create
  returns a thread, and every repetition (by either operation, with the users in either
  order) returns that same thread and leaves the store as it is. When no private thread
  of exactly the two users existed, exactly one is created, with the two users as its
  participants; otherwise nothing is created. The number of private threads of the pair
  never grows beyond one by these calls.
\<close>

theorem private_thread_find_or_create:
  assumes "db_wf db" "available db" "users db a \<noteq> None" "users db b \<noteq> None" "a \<noteq> b"
  shows "(\<exists>t db'. getOrCreatePrivateChatThread db a b = Inr (t, db')
           \<and> getOrCreatePrivateChatThread db' a b = Inr (t, db')
           \<and> getOrCreatePrivateChatThread db' b a = Inr (t, db')
           \<and> (\<exists>room. GetOrCreatePrivateChat db' a b = (Inr room, db') \<and> RoomID room = FormatInt t)
           \<and> (\<exists>room. GetOrCreatePrivateChat db' b a = (Inr room, db') \<and> RoomID room = FormatInt t)
           \<and> (if private_threads db a b = []
                then private_threads db' a b = [t] \<and> participants_of db' t = [a, b]
                  \<and> chat_threads db' = chat_threads db @ [\<lparr>thread_id = t, is_group = False, group_id = None\<rparr>]
                else db' = db)
           \<and> length (private_threads db' a b) = max 1 (length (private_threads db a b)))
       \<and> (\<exists>room db2. GetOrCreatePrivateChat db a b = (Inr room, db2)
           \<and> (\<exists>room'. GetOrCreatePrivateChat db2 a b = (Inr room', db2) \<and> RoomID room' = RoomID room)
           \<and> (\<exists>room'. GetOrCreatePrivateChat db2 b a = (Inr room', db2) \<and> RoomID room' = RoomID room)
           \<and> length (private_threads db2 a b) = max 1 (length (private_threads db a b)))"
  using thread_repeat[OF assms] goc_repeat[OF assms] by (rule conjI)

theorem private_thread_find_or_create_witness:
  "(\<exists>t db'. getOrCreatePrivateChatThread example_db ''bob'' ''alice'' = Inr (t, db')
           \<and> getOrCreatePrivateChatThread db' ''bob'' ''alice'' = Inr (t, db')
           \<and> getOrCreatePrivateChatThread db' ''alice'' ''bob'' = Inr (t, db')
           \<and> private_threads db' ''bob'' ''alice'' = [t] \<and> participants_of db' t = [''bob'', ''alice''])
   \<and> private_threads example_db ''bob'' ''alice'' = []"
proof -
  have wf: "db_wf example_db" by (simp add: db_wf_def example_db_def)
  have av: "available example_db" by (simp add: example_db_def)
  have ua: "users example_db ''bob'' \<noteq> None" and ub: "users example_db ''alice'' \<noteq> None"
    by (simp_all add: example_db_def)
  have ne: "''bob'' \<noteq> ''alice''" by simp
  have none: "private_threads example_db ''bob'' ''alice'' = []"
    by (simp add: private_threads_def private_thread_matches_def example_db_def)
  from private_thread_find_or_create[OF wf av ua ub ne] none show ?thesis
    by auto
qed

subsection \<open>Read receipts\<close>

lemma count_reads_zero_iff: "count_reads db m u = 0 \<longleftrightarrow> (m, u) \<notin> read_key ` set (message_reads db)"
  by (auto simp: count_reads_def read_key_def filter_empty_conv image_iff)

lemma distinct_count_le1: "distinct (map f xs) \<Longrightarrow> length (filter (\<lambda>x. f x = k) xs) \<le> 1"
  by (induction xs) (auto simp: filter_empty_conv image_iff)

lemma count_reads_unique:
  assumes "reads_unique db"
  shows "count_reads db m u \<le> 1"
proof -
  have "count_reads db m u = length (filter (\<lambda>r. read_key r = (m, u)) (message_reads db))"
    by (simp add: count_reads_def read_key_def)
  then show ?thesis using assms distinct_count_le1[of read_key "message_reads db" "(m, u)"]
    by (simp add: reads_unique_def)
qed

lemma mark_read_noop:
  "available tx \<Longrightarrow> list_all (\<lambda>m. count_reads tx m u \<noteq> 0) ms \<Longrightarrow> mark_read t u tx ms = Inr tx"
  by (induction ms) auto

lemma insert_read_props:
  assumes "insert_message_read tx m u t = Inr tx1"
  shows "available tx1" "users tx1 = users tx" "count_reads tx1 m u = 1"
    "count_reads tx m' u' \<noteq> 0 \<Longrightarrow> count_reads tx1 m' u' \<noteq> 0"
    "reads_unique tx \<Longrightarrow> reads_unique tx1"
  using assms
  by (auto simp: insert_message_read_def count_reads_def reads_unique_def read_key_def image_iff filter_empty_conv split: if_splits)

lemma mark_read_props:
  assumes "mark_read t u tx ms = Inr tx'" "available tx"
  shows "available tx' \<and> list_all (\<lambda>m. count_reads tx' m u \<noteq> 0) ms
     \<and> (reads_unique tx \<longrightarrow> reads_unique tx')
     \<and> (\<forall>m' u'. count_reads tx m' u' \<noteq> 0 \<longrightarrow> count_reads tx' m' u' \<noteq> 0)"
  using assms
proof (induction ms arbitrary: tx)
  case Nil
  then show ?case by simp
next
  case (Cons m ms)
  show ?case
  proof (cases "count_reads tx m u = 0")
    case True
    then obtain tx1 where i: "insert_message_read tx m u t = Inr tx1" and r: "mark_read t u tx1 ms = Inr tx'"
      using Cons.prems by (auto split: sum.splits)
    note ip = insert_read_props[OF i]
    have ih: "available tx' \<and> list_all (\<lambda>m. count_reads tx' m u \<noteq> 0) ms
       \<and> (reads_unique tx1 \<longrightarrow> reads_unique tx')
       \<and> (\<forall>m' u'. count_reads tx1 m' u' \<noteq> 0 \<longrightarrow> count_reads tx' m' u' \<noteq> 0)"
      using Cons.IH[OF r ip(1)] .
    have "count_reads tx' m u \<noteq> 0" using ih ip(3) by (metis One_nat_def nat.simps(3))
    then show ?thesis using ih ip(4,5) by auto
  next
    case False
    then have r: "mark_read t u tx ms = Inr tx'" using Cons.prems by simp
    show ?thesis using Cons.IH[OF r Cons.prems(2)] False by auto
  qed
qed

lemma mark_read_succeeds:
  "available tx \<Longrightarrow> users tx u \<noteq> None \<Longrightarrow> \<exists>tx'. mark_read t u tx ms = Inr tx'"
proof (induction ms arbitrary: tx)
  case Nil
  then show ?case by simp
next
  case (Cons m ms)
  show ?case
  proof (cases "count_reads tx m u = 0")
    case True
    let ?tx1 = "tx\<lparr>message_reads := message_reads tx @ [\<lparr>read_message_id = m, read_user_id = u, read_at = t\<rparr>]\<rparr>"
    have i: "insert_message_read tx m u t = Inr ?tx1"
      using True Cons.prems by (simp add: insert_message_read_def)
    have "available ?tx1" "users ?tx1 u \<noteq> None" using Cons.prems by simp_all
    then obtain tx' where "mark_read t u ?tx1 ms = Inr tx'" using Cons.IH by blast
    then show ?thesis using True i Cons.prems by simp
  next
    case False
    then show ?thesis using Cons by simp
  qed
qed

text \<open>
  Claim C6. Recording read receipts is idempotent: once a batch has been recorded for a
  user, recording the same batch again, or any batch of message ids drawn from it,
  succeeds and changes nothing; the store keeps at most one record per (message, user)
  pair, and exactly one for each message of the batch.
\<close>

theorem read_receipt_idempotent:
  assumes "reads_unique db" "available db" "users db (ReadUserID readMsg) \<noteq> None"
  shows "\<exists>db'. updateReadMessages t db readMsg = Inr db'
           \<and> updateReadMessages t' db' readMsg = Inr db'
           \<and> (\<forall>ids. set ids \<subseteq> set (MessageIDs readMsg) \<longrightarrow>
                  updateReadMessages t' db' (readMsg\<lparr>MessageIDs := ids\<rparr>) = Inr db')
           \<and> reads_unique db'
           \<and> list_all (\<lambda>m. count_reads db' m (ReadUserID readMsg) = 1) (MessageIDs readMsg)"
proof -
  let ?u = "ReadUserID readMsg" and ?ms = "MessageIDs readMsg"
  obtain db' where m: "mark_read t ?u db ?ms = Inr db'"
    using mark_read_succeeds[OF assms(2,3)] by blast
  note p = mark_read_props[OF m assms(2)]
  have av: "available db'" and all: "list_all (\<lambda>m. count_reads db' m ?u \<noteq> 0) ?ms" and un: "reads_unique db'"
    using p assms(1) by auto
  have noop: "\<And>ids. set ids \<subseteq> set ?ms \<Longrightarrow> mark_read t' ?u db' ids = Inr db'"
    using all by (intro mark_read_noop[OF av]) (auto simp: list_all_iff)
  have one: "list_all (\<lambda>m. count_reads db' m ?u = 1) ?ms"
    unfolding list_all_iff
  proof
    fix m assume "m \<in> set ?ms"
    then have "count_reads db' m ?u \<noteq> 0" using all by (simp add: list_all_iff)
    moreover have "count_reads db' m ?u \<le> 1" using count_reads_unique[OF un] .
    ultimately show "count_reads db' m ?u = 1" by arith
  qed
  show ?thesis using m av un one noop assms(2)
    by (intro exI[of _ db']) (simp add: updateReadMessages_def)
qed

theorem read_receipt_idempotent_witness:
  "\<exists>db'. updateReadMessages 7 example_db
            \<lparr>ReadChatID = ''1'', MessageIDs = [''5'', ''6'', ''5''], ReadUserID = ''alice''\<rparr> = Inr db'
      \<and> updateReadMessages 9 db'
            \<lparr>ReadChatID = ''1'', MessageIDs = [''5'', ''6'', ''5''], ReadUserID = ''alice''\<rparr> = Inr db'
      \<and> count_reads db' ''5'' ''alice'' = 1 \<and> count_reads db' ''6'' ''alice'' = 1
      \<and> count_reads example_db ''5'' ''alice'' = 0"
proof -
  have un: "reads_unique example_db" by (simp add: reads_unique_def example_db_def)
  have av: "available example_db" by (simp add: example_db_def)
  have us: "users example_db
      (ReadUserID \<lparr>ReadChatID = ''1'', MessageIDs = [''5'', ''6'', ''5''], ReadUserID = ''alice''\<rparr>) \<noteq> None"
    by (simp add: example_db_def)
  have zero: "count_reads example_db ''5'' ''alice'' = 0"
    by (simp add: count_reads_def example_db_def)
  from read_receipt_idempotent[OF un av us, of 7 9] zero show ?thesis
    by auto
qed

subsection \<open>The hub: registration, unregistration, typing\<close>

lemma map_of_status_put: "map_of (status_put k v al) k = Some v"
  by (induction al) auto

lemma map_of_status_put_other: "k' \<noteq> k \<Longrightarrow> map_of (status_put k v al) k' = map_of al k'"
  by (induction al) auto

lemma SendToUsers_eq: "SendToUsers us m w = w\<lparr>trace := trace w @ map (\<lambda>u. Go (GoSendToUser u m)) us\<rparr>"
proof (induction us arbitrary: w)
  case Nil
  then show ?case by (simp add: SendToUsers_def)
next
  case (Cons u us)
  have "SendToUsers (u # us) m w = SendToUsers us m (go (GoSendToUser u m) w)"
    by (simp add: SendToUsers_def)
  then show ?case using Cons[of "go (GoSendToUser u m) w"] by (simp add: go_def)
qed

lemma refresh_fold: "foldl (\<lambda>w' target. go (GoRefreshChatList target) w') w us
   = w\<lparr>trace := trace w @ map (\<lambda>u. Go (GoRefreshChatList u)) us\<rparr>"
  by (induction us arbitrary: w) (simp_all add: go_def)

lemma broadcastUserStatus_eq:
  "broadcastUserStatus u b w =
     (case getRelatedUsers (store w) u of
        Inl e \<Rightarrow> w
      | Inr rel \<Rightarrow> w\<lparr>trace := trace w @
           Go (GoSendToUsers rel \<lparr>WSType = TypeUserStatusUpdate,
                 Data = StatusData \<lparr>StatusUserID = u, IsOnline = b, LastSeen = clock w\<rparr>,
                 WSTimestamp = clock w\<rparr>)
           # map (\<lambda>t. Go (GoRefreshChatList t)) rel\<rparr>)"
  by (simp add: broadcastUserStatus_def refresh_fold Let_def split: sum.splits) (simp add: go_def)

lemma broadcast_hub: "hub (broadcastUserStatus u b w) = hub w"
  by (simp add: broadcastUserStatus_eq split: sum.splits)

lemma handleUnregister_total: "\<exists>w'. handleUnregister c w = Inr w'"
  by (simp add: handleUnregister_def close_chan_def Let_def)

lemma handleUnregister_unregistered: "clients (hub w) c = None \<Longrightarrow> handleUnregister c w = Inr w"
  by (simp add: handleUnregister_def)

lemma handleUnregister_removes: "handleUnregister c w = Inr w' \<Longrightarrow> clients (hub w') c = None"
  by (auto simp: handleUnregister_def close_chan_def Let_def removeUserConnectionUnsafe_def go_def split: if_splits)

lemma handleUnregister_twice: "handleUnregister c w = Inr w' \<Longrightarrow> handleUnregister c w' = Inr w'"
  using handleUnregister_removes handleUnregister_unregistered by blast

lemma handleUnregister_keeps_open:
  "clients (hub w) c \<noteq> None \<Longrightarrow> buf (send w c) \<noteq> [] \<Longrightarrow> \<not> is_closed (send w c) \<Longrightarrow>
   handleUnregister c w = Inr w' \<Longrightarrow> \<not> is_closed (send w' c) \<and> buf (send w' c) = tl (buf (send w c))"
  by (auto simp: handleUnregister_def Let_def go_def split: if_splits)

lemma handleUnregister_closes_empty:
  "clients (hub w) c \<noteq> None \<Longrightarrow> buf (send w c) = [] \<Longrightarrow> handleUnregister c w = Inr w' \<Longrightarrow> is_closed (send w' c)"
  by (auto simp: handleUnregister_def close_chan_def Let_def go_def split: if_splits)

lemma unregister_last:
  assumes "clients (hub w) c \<noteq> None" "connections_of (hub w) (userID c) = [c]"
  shows "\<exists>w'. handleUnregister c w = Inr w'
           \<and> userConnections (hub w') (userID c) = None
           \<and> clients (hub w') c = None
           \<and> userStatus (hub w') = userStatus (hub w)
           \<and> typingUsers (hub w') = typingUsers (hub w)
           \<and> trace w' = trace w @ [Go (GoOffline (userID c))]
           \<and> map_of (userStatus (hub (go_offline (userID c) w'))) (userID c)
                = Some \<lparr>StatusUserID = userID c, IsOnline = False, LastSeen = clock w\<rparr>
           \<and> typingUsers (hub (go_offline (userID c) w')) = typingUsers (hub w)"
proof -
  obtain w' where u: "handleUnregister c w = Inr w'" using handleUnregister_total by blast
  have h: "hub w' = removeUserConnectionUnsafe c ((hub w)\<lparr>clients := (clients (hub w))(c := None)\<rparr>)"
    and cl: "clock w' = clock w"
    using u assms(1) by (auto simp: handleUnregister_def close_chan_def Let_def go_def split: if_splits)
  have r: "removeUserConnectionUnsafe c ((hub w)\<lparr>clients := (clients (hub w))(c := None)\<rparr>)
       = (hub w)\<lparr>clients := (clients (hub w))(c := None), userConnections := (userConnections (hub w))(userID c := None)\<rparr>"
    using assms(2) by (simp add: removeUserConnectionUnsafe_def connections_of_def Let_def split: option.splits)
  have t: "trace w' = trace w @ [Go (GoOffline (userID c))]"
    using u assms(1) r by (auto simp: handleUnregister_def close_chan_def Let_def go_def connections_of_def split: if_splits)
  show ?thesis using u h r t cl
    by (intro exI[of _ w']) (simp add: go_offline_def broadcast_hub updateUserStatus_def map_of_status_put)
qed

lemma alice_online_eval:
  "clients (hub alice_online) alice1 = Some True"
  "connections_of (hub alice_online) ''alice'' = [alice1]"
  "map_of (userStatus (hub alice_online)) ''alice'' = Some \<lparr>StatusUserID = ''alice'', IsOnline = True, LastSeen = 10\<rparr>"
  "trace alice_online = [Go (GoSendChatList ''alice''), Go (GoBroadcastUserStatus ''alice'' True)]"
  by (simp_all add: alice_online_def handleRegister_def example_world_def alice1_def Let_def
      addUserConnectionUnsafe_def connections_of_def updateUserStatus_def go_def)

text \<open>
  Claim C2, as amended. When the last session of a user is unregistered, the user's key
  leaves the connection map and the session leaves the registry. The presence map is not
  pruned: unregistration itself leaves it alone and starts the goroutine \<open>go_offline\<close>,
  after which the user's entry is still there, now offline and with the last-seen time.
  The typing maps are left exactly as they were, before and after that goroutine.
\<close>

theorem last_session_unregistered:
  assumes "clients (hub w) c \<noteq> None" "connections_of (hub w) (userID c) = [c]"
  shows "\<exists>w'. handleUnregister c w = Inr w'
           \<and> userConnections (hub w') (userID c) = None
           \<and> clients (hub w') c = None
           \<and> userStatus (hub w') = userStatus (hub w)
           \<and> typingUsers (hub w') = typingUsers (hub w)
           \<and> trace w' = trace w @ [Go (GoOffline (userID c))]
           \<and> map_of (userStatus (hub (go_offline (userID c) w'))) (userID c)
                = Some \<lparr>StatusUserID = userID c, IsOnline = False, LastSeen = clock w\<rparr>
           \<and> typingUsers (hub (go_offline (userID c) w')) = typingUsers (hub w)"
  using assms by (rule unregister_last)

lemma HandleTyping_eq:
  assumes "available (store w)"
  shows "HandleTyping chatID u nickName isTyping w =
     (let tm = \<lparr>UserID = u, NickName = nickName, TypingChatID = chatID, IsTyping = isTyping\<rparr>;
          ps = (case text_to_integer (store w) chatID of None \<Rightarrow> []
                | Some cid \<Rightarrow> sort (participants_of (store w) cid));
          inner = (case typingUsers (hub w) chatID of None \<Rightarrow> Map.empty | Some m \<Rightarrow> m)
      in w\<lparr>hub := (hub w)\<lparr>typingUsers :=
              (if isTyping then (typingUsers (hub w))(chatID \<mapsto> inner(u \<mapsto> tm))
               else if inner(u := None) = Map.empty then (typingUsers (hub w))(chatID := None)
               else (typingUsers (hub w))(chatID \<mapsto> inner(u := None)))\<rparr>,
            trace := trace w @ map (\<lambda>p. Go (GoSendToUser p
                        \<lparr>WSType = TypeTyping, Data = TypingData [tm], WSTimestamp = clock w\<rparr>)) ps
                     @ [TypingMapWrite chatID u isTyping]\<rparr>)"
  using assms
  by (simp add: HandleTyping_def getChatParticipants_def SendToUsers_eq Let_def split: option.splits)

lemma alice_online_store: "store alice_online = example_db" "clock alice_online = 10"
  "typingUsers (hub alice_online) = Map.empty"
  "send alice_online = (\<lambda>c. \<lparr>buf = [], is_closed = False, cap = 512\<rparr>)"
  by (simp_all add: alice_online_def handleRegister_def example_world_def Let_def
      addUserConnectionUnsafe_def updateUserStatus_def go_def)

lemma example_available: "available example_db"
  by (simp add: example_db_def)

lemma alice_typing_eval:
  "clients (hub alice_typing) alice1 = Some True"
  "connections_of (hub alice_typing) ''alice'' = [alice1]"
  "typingUsers (hub alice_typing) ''1''
      = Some (Map.empty(''alice'' \<mapsto> \<lparr>UserID = ''alice'', NickName = ''Al'', TypingChatID = ''1'', IsTyping = True\<rparr>))"
  using alice_online_eval
  by (simp_all add: alice_typing_def HandleTyping_eq alice_online_store example_available Let_def connections_of_def)

text \<open>
  Claim C2 as stated fails. Alice registers her only session and starts typing in chat 1;
  after the session is unregistered, and also after the offline goroutine has run, her
  identifier still has an entry in the presence map and in the typing map of chat 1.
\<close>

theorem disconnect_prunes_counterexample:
  "\<exists>w'. handleUnregister alice1 alice_typing = Inr w'
      \<and> userConnections (hub w') ''alice'' = None
      \<and> map_of (userStatus (hub (go_offline ''alice'' w'))) ''alice'' \<noteq> None
      \<and> (\<exists>m. typingUsers (hub (go_offline ''alice'' w')) ''1'' = Some m \<and> m ''alice'' \<noteq> None)
      \<and> \<not> user_pruned ''alice'' (hub w')
      \<and> \<not> user_pruned ''alice'' (hub (go_offline ''alice'' w'))"
proof -
  have c: "clients (hub alice_typing) alice1 \<noteq> None" using alice_typing_eval(1) by simp
  have l: "connections_of (hub alice_typing) (userID alice1) = [alice1]"
    using alice_typing_eval(2) by (simp add: alice1_def)
  obtain w' where w: "handleUnregister alice1 alice_typing = Inr w'"
      "userConnections (hub w') (userID alice1) = None"
      "typingUsers (hub w') = typingUsers (hub alice_typing)"
      "map_of (userStatus (hub (go_offline (userID alice1) w'))) (userID alice1)
         = Some \<lparr>StatusUserID = userID alice1, IsOnline = False, LastSeen = clock alice_typing\<rparr>"
      "typingUsers (hub (go_offline (userID alice1) w')) = typingUsers (hub alice_typing)"
    using unregister_last[OF c l] by blast
  have u: "userID alice1 = ''alice''" by (simp add: alice1_def)
  have t1: "\<not> user_pruned ''alice'' (hub w')"
  proof
    assume "user_pruned ''alice'' (hub w')"
    then have "\<forall>chat m. typingUsers (hub alice_typing) chat = Some m \<longrightarrow> m ''alice'' = None"
      using w(3) by (simp add: user_pruned_def)
    then show False using alice_typing_eval(3) by fastforce
  qed
  have t2: "\<not> user_pruned ''alice'' (hub (go_offline ''alice'' w'))"
    using w(4) u by (auto simp: user_pruned_def)
  show ?thesis using w u t1 t2 alice_typing_eval(3)
    by (intro exI[of _ w']) auto
qed

theorem last_session_unregistered_witness:
  "\<exists>w'. handleUnregister alice1 alice_typing = Inr w'
      \<and> userConnections (hub w') ''alice'' = None
      \<and> map_of (userStatus (hub (go_offline ''alice'' w'))) ''alice''
           = Some \<lparr>StatusUserID = ''alice'', IsOnline = False, LastSeen = clock alice_typing\<rparr>
      \<and> typingUsers (hub (go_offline ''alice'' w')) = typingUsers (hub alice_typing)"
proof -
  have c: "clients (hub alice_typing) alice1 \<noteq> None" using alice_typing_eval(1) by simp
  have l: "connections_of (hub alice_typing) (userID alice1) = [alice1]"
    using alice_typing_eval(2) by (simp add: alice1_def)
  have u: "userID alice1 = ''alice''" by (simp add: alice1_def)
  from last_session_unregistered[OF c l] u show ?thesis by auto
qed

lemma alice_queued_reached: "SendToUser ''alice'' example_frame alice_online = Inr alice_queued"
  using alice_online_eval
  by (simp add: SendToUser_def alice_queued_def alice_online_store Let_def)

text \<open>
  Claim C3 at a failing input. Alice's only session is unregistered while one message
  waits in its outbound queue: the \<open>select\<close> receives that message instead of closing the
  channel, so the session has left the registry with its queue still open, and a repeated
  unregister changes nothing. That is so for every non-empty open queue
  (\<open>handleUnregister_keeps_open\<close>). With an empty queue the channel is closed, and no call
  ever closes a channel twice (\<open>handleUnregister_closes_empty\<close>, \<open>handleUnregister_total\<close>,
  \<open>handleUnregister_twice\<close>).
\<close>

theorem unregister_leaves_queue_open:
  "\<exists>w'. handleUnregister alice1 alice_queued = Inr w'
      \<and> clients (hub w') alice1 = None
      \<and> is_closed (send w' alice1) = False
      \<and> buf (send w' alice1) = []
      \<and> handleUnregister alice1 w' = Inr w'"
proof -
  have c: "clients (hub alice_queued) alice1 = Some True"
    using alice_online_eval(1) by (simp add: alice_queued_def)
  obtain w' where w: "handleUnregister alice1 alice_queued = Inr w'" using handleUnregister_total by blast
  then have "is_closed (send w' alice1) = False" "buf (send w' alice1) = []"
    using c by (auto simp: handleUnregister_def Let_def go_def alice_queued_def alice_online_store split: if_splits)
  then show ?thesis using w handleUnregister_removes[OF w] handleUnregister_twice[OF w] by auto
qed

text \<open>
  Claim C4, as amended. Every registration, whether or not the user already has a live
  connection, enters the session into the registry and at the end of the user's
  connection list, marks the user online, and starts the chat-list goroutine and the
  presence broadcast, in that order.
\<close>

theorem register_always_broadcasts:
  "trace (handleRegister c w)
      = trace w @ [Go (GoSendChatList (userID c)), Go (GoBroadcastUserStatus (userID c) True)]
   \<and> map_of (userStatus (hub (handleRegister c w))) (userID c)
      = Some \<lparr>StatusUserID = userID c, IsOnline = True, LastSeen = clock w\<rparr>
   \<and> clients (hub (handleRegister c w)) c = Some True
   \<and> connections_of (hub (handleRegister c w)) (userID c) = connections_of (hub w) (userID c) @ [c]"
  by (simp add: handleRegister_def Let_def addUserConnectionUnsafe_def connections_of_def
      updateUserStatus_def go_def map_of_status_put)

text \<open>
  Claim C4 as stated fails. Alice already has a live session; registering a second one
  starts the presence broadcast again.
\<close>

theorem first_connection_only_counterexample:
  "connections_of (hub alice_online) ''alice'' = [alice1]
   \<and> register_broadcasts alice2 alice_online
   \<and> \<not> (register_broadcasts alice2 alice_online \<longleftrightarrow> connections_of (hub alice_online) (userID alice2) = [])"
proof -
  have b: "register_broadcasts alice2 alice_online"
    by (simp add: register_broadcasts_def handleRegister_def Let_def updateUserStatus_def go_def)
  have u: "userID alice2 = ''alice''" by (simp add: alice2_def)
  show ?thesis using b u alice_online_eval(2) by simp
qed






subsection \<open>Presence stays within the social graph\<close>

lemma set_distinct_first: "set (distinct_first xs) = set xs"
  by (simp add: distinct_first_def)

lemma getRelatedUsers_set:
  "getRelatedUsers db u = Inr rel \<Longrightarrow> set rel = {v. related db u v}"
  by (auto simp: getRelatedUsers_def set_distinct_first related_def image_iff split: if_splits) force+

lemma getRelatedUsers_unavailable: "\<not> available db \<Longrightarrow> getRelatedUsers db u = Inl ErrUnavailable"
  by (simp add: getRelatedUsers_def)

lemma getRelatedUsers_available: "available db \<Longrightarrow> \<exists>rel. getRelatedUsers db u = Inr rel"
  by (simp add: getRelatedUsers_def)

lemma online_users_set:
  "set (GetOnlineUsers req w) =
     (if available (store w) then {v. is_online (hub w) v \<and> v \<noteq> req \<and> related (store w) req v} else {})"
proof (cases "available (store w)")
  case True
  then obtain rel where r: "getRelatedUsers (store w) req = Inr rel" using getRelatedUsers_available by blast
  have "set rel = {v. related (store w) req v}" using getRelatedUsers_set[OF r] .
  then show ?thesis using True r
    by (auto simp: GetOnlineUsers_def is_online_def image_iff)
next
  case False
  then show ?thesis by (simp add: GetOnlineUsers_def getRelatedUsers_unavailable)
qed

lemma presence_recipients_set:
  "set (presence_recipients u b w) = (if available (store w) then {v. related (store w) u v} else {})"
proof (cases "available (store w)")
  case True
  then obtain rel where r: "getRelatedUsers (store w) u = Inr rel" using getRelatedUsers_available by blast
  have s: "set rel = {v. related (store w) u v}" using getRelatedUsers_set[OF r] .
  have "concat (map (\<lambda>x. targets_of (Go (GoRefreshChatList x))) rel) = rel"
    by (induction rel) auto
  then have "set (presence_recipients u b w) = set rel"
    using r by (simp add: presence_recipients_def broadcastUserStatus_eq comp_def)
  then show ?thesis using True s by simp
next
  case False
  then show ?thesis
    by (simp add: presence_recipients_def broadcastUserStatus_eq getRelatedUsers_unavailable)
qed

text \<open>
  Claim C9. \<open>GetOnlineUsers\<close> returns exactly the users that are online, are not the
  requester and are related to the requester (nobody when the store cannot be read), and
  \<open>broadcastUserStatus\<close> sends to exactly the related users. A user without an edge to the
  requester is in neither.
\<close>

theorem presence_only_for_related:
  "set (GetOnlineUsers req w)
     = (if available (store w) then {v. is_online (hub w) v \<and> v \<noteq> req \<and> related (store w) req v} else {})
   \<and> set (presence_recipients req isOnline w)
     = (if available (store w) then {v. related (store w) req v} else {})
   \<and> (\<forall>v. \<not> related (store w) req v \<longrightarrow>
         v \<notin> set (GetOnlineUsers req w) \<and> v \<notin> set (presence_recipients req isOnline w))"
  using online_users_set[of req w] presence_recipients_set[of req isOnline w]
  by (auto split: if_splits)

lemma all_online_eval:
  "store all_online = example_db"
  "clock all_online = 10"
  "userStatus (hub all_online) =
     [(''alice'', \<lparr>StatusUserID = ''alice'', IsOnline = True, LastSeen = 10\<rparr>),
      (''bob'', \<lparr>StatusUserID = ''bob'', IsOnline = True, LastSeen = 10\<rparr>),
      (''carol'', \<lparr>StatusUserID = ''carol'', IsOnline = True, LastSeen = 10\<rparr>)]"
  "send all_online = (\<lambda>c. \<lparr>buf = [], is_closed = False, cap = 512\<rparr>)"
  by (simp_all add: all_online_def alice_online_def handleRegister_def example_world_def Let_def
      addUserConnectionUnsafe_def updateUserStatus_def go_def alice1_def bob1_def carol1_def)

lemma all_online_hub:
  "connections_of (hub all_online) ''bob'' = [bob1]"
  "connections_of (hub all_online) ''alice'' = [alice1]"
  "clients (hub all_online) bob1 = Some True"
  by (simp_all add: all_online_def alice_online_def handleRegister_def example_world_def Let_def
      addUserConnectionUnsafe_def updateUserStatus_def go_def alice1_def bob1_def carol1_def connections_of_def)

theorem presence_only_for_related_witness:
  "\<not> related example_db ''alice'' ''carol''
   \<and> is_online (hub all_online) ''carol''
   \<and> ''carol'' \<notin> set (GetOnlineUsers ''alice'' all_online)
   \<and> ''carol'' \<notin> set (presence_recipients ''alice'' True all_online)
   \<and> set (GetOnlineUsers ''alice'' all_online) = {''bob''}"
proof -
  have r: "\<not> related (store all_online) ''alice'' ''carol''"
    by (simp add: all_online_eval related_def example_db_def)
  have o: "is_online (hub all_online) ''carol''"
    by (simp add: is_online_def all_online_eval)
  have g: "set (GetOnlineUsers ''alice'' all_online) = {''bob''}"
    by (simp add: GetOnlineUsers_def getRelatedUsers_def set_distinct_first all_online_eval example_db_def
        distinct_first_def)
  from presence_only_for_related[of "''alice''" all_online True] r o g show ?thesis
    by (simp add: all_online_eval)
qed

subsection \<open>Delivery and the gif handler\<close>

lemma deliver_frame:
  "deliver cs m w = Inr w' \<Longrightarrow> store w' = store w \<and> hub w' = hub w \<and> clock w' = clock w"
  by (induction cs arbitrary: w) (auto simp: go_def split: if_splits)

lemma deliver_other:
  "deliver cs m w = Inr w' \<Longrightarrow> c \<notin> set cs \<Longrightarrow> send w' c = send w c"
  by (induction cs arbitrary: w) (auto simp: go_def split: if_splits)

lemma deliver_closed:
  "deliver cs m w = Inr w' \<Longrightarrow> is_closed (send w' c) = is_closed (send w c)"
  by (induction cs arbitrary: w) (auto simp: go_def split: if_splits)

lemma deliver_buf_mono:
  "deliver cs m w = Inr w' \<Longrightarrow> x \<in> set (buf (send w c)) \<Longrightarrow> x \<in> set (buf (send w' c))"
proof (induction cs arbitrary: w)
  case Nil
  then show ?case by simp
next
  case (Cons d cs)
  let ?w1 = "w\<lparr>send := (send w)(d := (send w d)\<lparr>buf := buf (send w d) @ [m]\<rparr>)\<rparr>"
  consider (skip) "deliver cs m w = Inr w'"
    | (sent) "deliver cs m ?w1 = Inr w'"
    | (full) "deliver cs m (go (GoUnregister d) w) = Inr w'"
    using Cons.prems(1) by (auto split: if_splits)
  then show ?case
  proof cases
    case skip
    from Cons.IH[OF this Cons.prems(2)] show ?thesis .
  next
    case sent
    have "x \<in> set (buf (send ?w1 c))" using Cons.prems(2) by (cases "c = d") simp_all
    from Cons.IH[OF sent this] show ?thesis .
  next
    case full
    have "x \<in> set (buf (send (go (GoUnregister d) w) c))" using Cons.prems(2) by (simp add: go_def)
    from Cons.IH[OF full this] show ?thesis .
  qed
qed

lemma deliver_trace:
  "deliver cs m w = Inr w' \<Longrightarrow>
     \<exists>gs. set gs \<subseteq> set cs \<and> trace w' = trace w @ map (\<lambda>c. Go (GoUnregister c)) gs"
proof (induction cs arbitrary: w)
  case Nil
  then show ?case by simp
next
  case (Cons c cs)
  consider (skip) "deliver cs m w = Inr w'"
    | (sent) "deliver cs m (w\<lparr>send := (send w)(c := (send w c)\<lparr>buf := buf (send w c) @ [m]\<rparr>)\<rparr>) = Inr w'"
    | (full) "deliver cs m (go (GoUnregister c) w) = Inr w'"
    using Cons.prems by (auto split: if_splits)
  then show ?case
  proof cases
    case skip
    from Cons.IH[OF this] show ?thesis by auto
  next
    case sent
    from Cons.IH[OF this] show ?thesis by auto
  next
    case full
    from Cons.IH[OF this] obtain gs where g: "set gs \<subseteq> set cs"
      "trace w' = trace w @ map (\<lambda>c. Go (GoUnregister c)) (c # gs)"
      by (auto simp: go_def)
    then have "set (c # gs) \<subseteq> set (c # cs)" by auto
    then show ?thesis using g(2) by blast
  qed
qed

lemma deliver_receives:
  "deliver cs m w = Inr w' \<Longrightarrow> c \<in> set cs \<Longrightarrow> clients (hub w) c \<noteq> None \<Longrightarrow>
   length (buf (send w c)) < cap (send w c) \<Longrightarrow> m \<in> set (buf (send w' c))"
proof (induction cs arbitrary: w)
  case Nil
  then show ?case by simp
next
  case (Cons d cs)
  show ?case
  proof (cases "d = c")
    case True
    let ?w1 = "w\<lparr>send := (send w)(c := (send w c)\<lparr>buf := buf (send w c) @ [m]\<rparr>)\<rparr>"
    have "deliver cs m ?w1 = Inr w'" using Cons.prems True by (auto split: if_splits)
    from deliver_buf_mono[OF this, of m c] show ?thesis by simp
  next
    case False
    then have c: "c \<in> set cs" using Cons.prems by simp
    consider (skip) "deliver cs m w = Inr w'"
      | (sent) "deliver cs m (w\<lparr>send := (send w)(d := (send w d)\<lparr>buf := buf (send w d) @ [m]\<rparr>)\<rparr>) = Inr w'"
      | (full) "deliver cs m (go (GoUnregister d) w) = Inr w'"
      using Cons.prems by (auto split: if_splits)
    then show ?thesis
    proof cases
      case skip
      from Cons.IH[OF this c] Cons.prems show ?thesis by simp
    next
      case sent
      from Cons.IH[OF this c] Cons.prems False show ?thesis by simp
    next
      case full
      from Cons.IH[OF this c] Cons.prems show ?thesis by (simp add: go_def)
    qed
  qed
qed

lemma deliver_total:
  "chans_open w \<Longrightarrow> \<exists>w'. deliver cs m w = Inr w'"
proof (induction cs arbitrary: w)
  case Nil
  then show ?case by simp
next
  case (Cons c cs)
  have 1: "chans_open (w\<lparr>send := (send w)(c := (send w c)\<lparr>buf := buf (send w c) @ [m]\<rparr>)\<rparr>)"
    using Cons.prems by (simp add: chans_open_def)
  have 2: "chans_open (go (GoUnregister c) w)"
    using Cons.prems by (simp add: chans_open_def go_def)
  show ?case using Cons.IH[OF 1] Cons.IH[OF 2] Cons.IH[OF Cons.prems] Cons.prems
    by (auto simp: chans_open_def)
qed

lemma chans_open_deliver: "chans_open w \<Longrightarrow> deliver cs m w = Inr w' \<Longrightarrow> chans_open w'"
  using deliver_frame[of cs m w w'] deliver_closed[of cs m w w'] by (simp add: chans_open_def)

lemma chans_open_register: "chans_open w \<Longrightarrow> \<not> is_closed (send w c) \<Longrightarrow> chans_open (handleRegister c w)"
  by (simp add: chans_open_def handleRegister_def Let_def addUserConnectionUnsafe_def updateUserStatus_def go_def)

lemma chans_open_unregister: "chans_open w \<Longrightarrow> handleUnregister c w = Inr w' \<Longrightarrow> chans_open w'"
  by (auto simp: chans_open_def handleUnregister_def close_chan_def Let_def removeUserConnectionUnsafe_def go_def
      split: if_splits)

text \<open>
  The validation of a gif payload is a substring test on the content, not a parse of the
  URL's host.
\<close>

lemma substring_is_enough:
  "isValidGifMessage (gifMsg\<lparr>Content := ''https://evil.example/cat.gif?from=tenor.com''\<rparr>)"
proof -
  have "sublist ''tenor.com'' ''https://evil.example/cat.gif?from=tenor.com''" by code_simp
  then show ?thesis by (simp add: isValidGifMessage_def)
qed

lemma SendToUser_deliver: "SendToUser u m w = deliver (connections_of (hub w) u) m w"
  by (simp add: SendToUser_def Let_def)

text \<open>
  What the validation guards. A gif payload that fails \<open>isValidGifMessage\<close> (empty, or
  without the substring \<open>tenor.com\<close>) is answered by \<open>SendToUser\<close> of a \<open>media_error\<close> frame
  to the sender's own user and by nothing else: the handler returns, the store and the hub
  are unchanged, the queue of every client that is not a connection of the sender is
  unchanged, every registered connection of the sender with room in its queue holds the
  error frame, and the only goroutines started hand a connection of the sender with a
  full queue to unregistration.
\<close>

lemma failed_validation_rejected:
  assumes "\<not> isValidGifMessage gifMsg" "chans_open w"
  shows "handleGifMessage c (Some gifMsg) w
           = SendToUser (userID c)
               \<lparr>WSType = TypeGif, Data = ErrorData ''Invalid GIF message'' ''media_error'',
                  WSTimestamp = clock w\<rparr> w
       \<and> (\<exists>w'. handleGifMessage c (Some gifMsg) w = Inr w'
            \<and> store w' = store w
            \<and> hub w' = hub w
            \<and> (\<forall>c'. c' \<notin> set (connections_of (hub w) (userID c)) \<longrightarrow> send w' c' = send w c')
            \<and> (\<forall>c'. c' \<in> set (connections_of (hub w) (userID c)) \<and> clients (hub w) c' \<noteq> None
                     \<and> length (buf (send w c')) < cap (send w c') \<longrightarrow>
                  \<lparr>WSType = TypeGif, Data = ErrorData ''Invalid GIF message'' ''media_error'',
                     WSTimestamp = clock w\<rparr> \<in> set (buf (send w' c')))
            \<and> (\<exists>gs. set gs \<subseteq> set (connections_of (hub w) (userID c))
                  \<and> trace w' = trace w @ map (\<lambda>c'. Go (GoUnregister c')) gs))"
proof -
  let ?f = "\<lparr>WSType = TypeGif, Data = ErrorData ''Invalid GIF message'' ''media_error'', WSTimestamp = clock w\<rparr>"
  let ?cs = "connections_of (hub w) (userID c)"
  have e: "handleGifMessage c (Some gifMsg) w = deliver ?cs ?f w"
    using assms(1) by (simp add: handleGifMessage_def sendGifError_def SendToUser_deliver)
  obtain w' where d: "deliver ?cs ?f w = Inr w'" using deliver_total[OF assms(2)] by blast
  show ?thesis
    using e d deliver_frame[OF d] deliver_other[OF d] deliver_receives[OF d] deliver_trace[OF d]
    by (simp add: SendToUser_deliver)
qed

lemma bad_gif_invalid: "\<not> isValidGifMessage bad_gif"
  unfolding isValidGifMessage_def bad_gif_def by code_simp

lemma all_online_open: "chans_open all_online"
  by (simp add: chans_open_def all_online_eval)

lemma failed_validation_rejected_example:
  "\<exists>w'. handleGifMessage alice1 (Some bad_gif) all_online = Inr w'
      \<and> store w' = store all_online
      \<and> \<lparr>WSType = TypeGif, Data = ErrorData ''Invalid GIF message'' ''media_error'', WSTimestamp = 10\<rparr>
           \<in> set (buf (send w' alice1))
      \<and> send w' bob1 = send all_online bob1"
proof -
  have a: "alice1 \<in> set (connections_of (hub all_online) (userID alice1)) \<and> clients (hub all_online) alice1 \<noteq> None
     \<and> length (buf (send all_online alice1)) < cap (send all_online alice1)"
  proof -
    have "clients (hub all_online) alice1 = Some True"
      by (simp add: all_online_def alice_online_def handleRegister_def example_world_def Let_def
          addUserConnectionUnsafe_def updateUserStatus_def go_def alice1_def bob1_def carol1_def)
    then show ?thesis by (simp add: all_online_hub all_online_eval alice1_def)
  qed
  have b: "bob1 \<notin> set (connections_of (hub all_online) (userID alice1))"
    by (simp add: all_online_hub alice1_def bob1_def)
  let ?f = "\<lparr>WSType = TypeGif, Data = ErrorData ''Invalid GIF message'' ''media_error'',
      WSTimestamp = clock all_online\<rparr>"
  from conjunct2[OF failed_validation_rejected[OF bad_gif_invalid all_online_open, of alice1]]
  obtain w' where w: "handleGifMessage alice1 (Some bad_gif) all_online = Inr w'"
      "store w' = store all_online"
      "\<forall>c'. c' \<notin> set (connections_of (hub all_online) (userID alice1)) \<longrightarrow> send w' c' = send all_online c'"
      "\<forall>c'. c' \<in> set (connections_of (hub all_online) (userID alice1)) \<and> clients (hub all_online) c' \<noteq> None
             \<and> length (buf (send all_online c')) < cap (send all_online c') \<longrightarrow> ?f \<in> set (buf (send w' c'))"
    by blast
  have "?f \<in> set (buf (send w' alice1))" using w(4) a by blast
  moreover have "send w' bob1 = send all_online bob1" using w(3) b by blast
  ultimately show ?thesis using w(1,2) by (simp add: all_online_eval)
qed

subsection \<open>Persisting and fanning out chat messages\<close>

lemma group_gif_valid: "isValidGifMessage group_gif"
  unfolding isValidGifMessage_def group_gif_def by code_simp

lemma ipr_frame:
  "insert_participant_rows db rows = Inr db' \<Longrightarrow>
     same_but_threads db db' \<and> chat_threads db' = chat_threads db"
  by (induction db rows rule: insert_participant_rows.induct)
     (auto simp: same_but_threads_def split: if_splits)

lemma ioi_frame:
  "same_but_threads db (insert_or_ignore_participants db rows)
   \<and> chat_threads (insert_or_ignore_participants db rows) = chat_threads db"
  by (induction db rows rule: insert_or_ignore_participants.induct)
     (auto simp: same_but_threads_def)

lemma private_resolve_frame:
  assumes "getOrCreatePrivateChatThread db a b = Inr (cid, tx)"
  shows "same_but_threads db tx \<and> cid \<in> thread_id ` set (chat_threads tx)"
proof (cases "private_threads db a b")
  case Nil
  let ?db1 = "db\<lparr>chat_threads := chat_threads db @
              [\<lparr>thread_id = Suc (thread_seq db), is_group = False, group_id = None\<rparr>],
            thread_seq := Suc (thread_seq db)\<rparr>"
  have "insert_participant_rows ?db1 [(Suc (thread_seq db), a), (Suc (thread_seq db), b)] = Inr tx
      \<and> cid = Suc (thread_seq db)"
    using assms Nil
    by (auto simp: getOrCreatePrivateChatThread_def insert_chat_thread_def insert_participants_def Let_def
        split: if_splits sum.splits)
  then have i: "insert_participant_rows ?db1 [(Suc (thread_seq db), a), (Suc (thread_seq db), b)] = Inr tx"
    and e: "cid = Suc (thread_seq db)" by simp_all
  from ipr_frame[OF i] e show ?thesis by (simp add: same_but_threads_def)
next
  case (Cons t ts)
  then have e: "cid = t" "tx = db" using assms
    by (auto simp: getOrCreatePrivateChatThread_def split: if_splits)
  then show ?thesis using Cons thread_of_private[of t db a b] by (simp add: same_but_threads_def)
qed

lemma group_resolve_frame:
  assumes "getOrCreateGroupChatThread db g = Inr (cid, tx)"
  shows "same_but_threads db tx \<and> cid \<in> thread_id ` set (chat_threads tx)"
proof -
  obtain n where n: "text_to_integer db g = Some n" and av: "available db"
    using assms by (auto simp: getOrCreateGroupChatThread_def split: if_splits option.splits)
  show ?thesis
  proof (cases "filter (\<lambda>ct. is_group ct \<and> group_id ct = Some n) (chat_threads db)")
    case Nil
    let ?db1 = "db\<lparr>chat_threads := chat_threads db @
              [\<lparr>thread_id = Suc (thread_seq db), is_group = True, group_id = Some n\<rparr>],
            thread_seq := Suc (thread_seq db)\<rparr>"
    let ?rows = "map (\<lambda>r. (Suc (thread_seq db), snd r)) (filter (\<lambda>r. fst r = n) (group_memberships db))"
    have e: "tx = insert_or_ignore_participants ?db1 ?rows \<and> cid = Suc (thread_seq db)"
      using assms n av Nil
      by (auto simp: getOrCreateGroupChatThread_def insert_chat_thread_def addGroupMembersToChat_def Let_def
          split: if_splits sum.splits)
    from ioi_frame[of ?db1 ?rows] e show ?thesis by (simp add: same_but_threads_def)
  next
    case (Cons ct cts)
    then have "ct \<in> set (filter (\<lambda>ct. is_group ct \<and> group_id ct = Some n) (chat_threads db))" by simp
    then have "ct \<in> set (chat_threads db)" by simp
    then show ?thesis using assms n av Cons
      by (auto simp: getOrCreateGroupChatThread_def same_but_threads_def)
  qed
qed

lemma save_appends:
  assumes "SaveMessageAndGetIDs db msg g = Inr (cid, mid, db')"
  shows "messages db' = messages db @
           [\<lparr>message_id = mid, chat_id = cid, sender_id = SenderID msg, content = Content msg,
             message_type = MessageType msg, created_at = Timestamp msg\<rparr>]
       \<and> available db' \<and> text_to_integer db' = text_to_integer db"
proof -
  obtain tx1 where r: "(if g \<noteq> [] then getOrCreateGroupChatThread db g
                else getOrCreatePrivateChatThread db (SenderID msg) (RecipientID msg)) = Inr (cid, tx1)"
    and i: "insert_message tx1 cid msg = Inr (mid, db')"
    using assms by (auto simp: SaveMessageAndGetIDs_def split: if_splits sum.splits)
  have "same_but_threads db tx1"
    using r private_resolve_frame group_resolve_frame by (auto split: if_splits)
  then show ?thesis using i
    by (auto simp: insert_message_def same_but_threads_def Let_def split: if_splits)
qed

lemma message_saved:
  assumes "same_but_threads db tx" "cid \<in> thread_id ` set (chat_threads tx)" "available db"
    "users db (SenderID msg) \<noteq> None" "MessageType msg = ''text''"
  shows "\<exists>mid db'. insert_message tx cid msg = Inr (mid, db')"
  using assms by (simp add: insert_message_def same_but_threads_def Let_def)

lemma private_save_succeeds:
  assumes "db_wf db" "available db" "users db (SenderID msg) \<noteq> None" "users db (RecipientID msg) \<noteq> None"
    "SenderID msg \<noteq> RecipientID msg" "MessageType msg = ''text''"
  shows "\<exists>cid mid db'. SaveMessageAndGetIDs db msg [] = Inr (cid, mid, db')"
proof -
  obtain cid tx where r: "getOrCreatePrivateChatThread db (SenderID msg) (RecipientID msg) = Inr (cid, tx)"
    using thread_repeat[OF assms(1-5)] by blast
  note f = private_resolve_frame[OF r]
  obtain mid db' where "insert_message tx cid msg = Inr (mid, db')"
    using message_saved[OF conjunct1[OF f] conjunct2[OF f] assms(2,3,6)] by blast
  then show ?thesis using r assms(2) by (auto simp: SaveMessageAndGetIDs_def)
qed

lemma group_thread_resolved:
  assumes "available db" "text_to_integer db g = Some n" "n \<in> set (groups db)" "members_exist db"
  shows "\<exists>cid tx. getOrCreateGroupChatThread db g = Inr (cid, tx)"
proof (cases "filter (\<lambda>ct. is_group ct \<and> group_id ct = Some n) (chat_threads db)")
  case Nil
  let ?db1 = "db\<lparr>chat_threads := chat_threads db @
            [\<lparr>thread_id = Suc (thread_seq db), is_group = True, group_id = Some n\<rparr>],
          thread_seq := Suc (thread_seq db)\<rparr>"
  let ?rows = "map (\<lambda>r. (Suc (thread_seq db), snd r)) (filter (\<lambda>r. fst r = n) (group_memberships db))"
  have "participant_keys_ok ?db1 (filter (\<lambda>r. r \<notin> set (chat_participants ?db1)) ?rows)"
    using assms(4) by (auto simp: participant_keys_ok_def members_exist_def list_all_iff)
  then show ?thesis using assms Nil
    by (simp add: getOrCreateGroupChatThread_def insert_chat_thread_def addGroupMembersToChat_def Let_def)
next
  case (Cons ct cts)
  then show ?thesis using assms by (simp add: getOrCreateGroupChatThread_def)
qed

lemma group_save_succeeds:
  assumes "available db" "text_to_integer db g = Some n" "g \<noteq> []" "n \<in> set (groups db)"
    "members_exist db" "users db (SenderID msg) \<noteq> None" "MessageType msg = ''text''"
  shows "\<exists>cid mid db'. SaveMessageAndGetIDs db msg g = Inr (cid, mid, db')"
proof -
  obtain cid tx where r: "getOrCreateGroupChatThread db g = Inr (cid, tx)"
    using group_thread_resolved[OF assms(1,2,4,5)] by blast
  note f = group_resolve_frame[OF r]
  obtain mid db' where "insert_message tx cid msg = Inr (mid, db')"
    using message_saved[OF conjunct1[OF f] conjunct2[OF f] assms(1,6,7)] by blast
  then show ?thesis using r assms(1,3) by (auto simp: SaveMessageAndGetIDs_def)
qed

lemma coerce_eq:
  assumes "MessageType m \<notin> set [''text'', ''emoji'', ''media'', ''gif'']"
  shows "handleChatMessage c (Some m) w = handleChatMessage c (Some (m\<lparr>MessageType := ''text''\<rparr>)) w"
proof -
  have r: "\<And>a b. m\<lparr>MessageType := ''text'', Timestamp := a, SenderID := b\<rparr>
                = m\<lparr>Timestamp := a, SenderID := b, MessageType := ''text''\<rparr>"
    by (cases m) simp
  show ?thesis using assms by (simp add: handleChatMessage_def Let_def r)
qed

lemma coerce_saved:
  assumes "MessageType m \<notin> set [''text'', ''emoji'', ''media'', ''gif'']"
    and "sender_info (store w) (userID c) = Inr (name, avatar)"
    and "SaveMessageAndGetIDs (store w)
           (m\<lparr>Timestamp := clock w, SenderID := userID c, MessageType := ''text'',
               SenderName := name, SenderAvatar := avatar\<rparr>) (GroupID m) = Inr (chatID, messageID, db')"
  shows "handleChatMessage c (Some m) w
           = sendMessageToRecipients c
               (m\<lparr>Timestamp := clock w, SenderID := userID c, MessageType := ''text'',
                   SenderName := name, SenderAvatar := avatar,
                   ChatID := FormatInt chatID, ID := FormatInt messageID\<rparr>) (w\<lparr>store := db'\<rparr>)
         \<and> messages db' = messages (store w) @
               [\<lparr>message_id = messageID, chat_id = chatID, sender_id = userID c, content = Content m,
                 message_type = ''text'', created_at = clock w\<rparr>]
         \<and> available db' \<and> text_to_integer db' = text_to_integer (store w)"
  using assms save_appends[OF assms(3)]
  by (simp add: handleChatMessage_def Let_def)

lemma direct_fanout:
  assumes "chans_open w" "RecipientID msg \<noteq> []"
  shows "\<exists>w'. sendMessageToRecipients c msg w = Inr w' \<and> store w' = store w \<and> hub w' = hub w
          \<and> (\<forall>c'. (c' \<in> set (connections_of (hub w) (RecipientID msg))
                     \<or> c' \<in> set (connections_of (hub w) (SenderID msg)))
                    \<and> clients (hub w) c' \<noteq> None \<and> length (buf (send w c')) < cap (send w c')
                 \<longrightarrow> \<lparr>WSType = TypeChat, Data = ChatData msg, WSTimestamp = clock w\<rparr>
                       \<in> set (buf (send w' c')))
          \<and> (\<forall>c'. c' \<notin> set (connections_of (hub w) (RecipientID msg))
                    \<and> c' \<notin> set (connections_of (hub w) (SenderID msg))
                 \<longrightarrow> send w' c' = send w c')"
proof -
  let ?f = "\<lparr>WSType = TypeChat, Data = ChatData msg, WSTimestamp = clock w\<rparr>"
  let ?rs = "connections_of (hub w) (RecipientID msg)" and ?ss = "connections_of (hub w) (SenderID msg)"
  obtain w1 where d1: "deliver ?rs ?f w = Inr w1" using deliver_total[OF assms(1)] by blast
  have h1: "hub w1 = hub w" "store w1 = store w" using deliver_frame[OF d1] by simp_all
  have o1: "chans_open w1" using chans_open_deliver[OF assms(1) d1] .
  obtain w2 where d2: "deliver ?ss ?f w1 = Inr w2" using deliver_total[OF o1] by blast
  have h2: "hub w2 = hub w" "store w2 = store w" using deliver_frame[OF d2] h1 by simp_all
  have e: "sendMessageToRecipients c msg w = Inr w2"
    using assms(2) d1 d2 h1 by (simp add: sendMessageToRecipients_def SendToUser_deliver Let_def)
  have got: "?f \<in> set (buf (send w2 c'))"
    if a: "c' \<in> set ?rs \<or> c' \<in> set ?ss" "clients (hub w) c' \<noteq> None"
       "length (buf (send w c')) < cap (send w c')" for c'
  proof (cases "c' \<in> set ?rs")
    case True
    from deliver_receives[OF d1 True a(2,3)] have "?f \<in> set (buf (send w1 c'))" .
    from deliver_buf_mono[OF d2 this] show ?thesis .
  next
    case False
    then have s: "c' \<in> set ?ss" using a(1) by simp
    have "send w1 c' = send w c'" using deliver_other[OF d1 False] .
    then have "clients (hub w1) c' \<noteq> None" "length (buf (send w1 c')) < cap (send w1 c')"
      using a(2,3) h1 by simp_all
    from deliver_receives[OF d2 s this] show ?thesis .
  qed
  have same: "send w2 c' = send w c'" if "c' \<notin> set ?rs" "c' \<notin> set ?ss" for c'
    using deliver_other[OF d1 that(1)] deliver_other[OF d2 that(2)] by simp
  show ?thesis using e h2 got same by (intro exI[of _ w2]) auto
qed

lemma group_fanout:
  assumes "RecipientID msg = []" "GroupID msg \<noteq> []" "available (store w)"
    "text_to_integer (store w) (ChatID msg) = Some cid"
  shows "sendMessageToRecipients c msg w
         = Inr (w\<lparr>trace := trace w @
                map (\<lambda>p. Go (GoSendToUser p \<lparr>WSType = TypeChat, Data = ChatData msg, WSTimestamp = clock w\<rparr>))
                  (sort (participants_of (store w) cid))\<rparr>)"
  using assms
  by (simp add: sendMessageToRecipients_def getChatParticipants_def SendToUsers_eq Let_def
      del: sort_key_simps)

text \<open>
  Claim C10. A chat message whose declared type is none of text, emoji, media, gif, sent
  through a session of an existing user while the store answers and the registered
  channels are open, is handled exactly as the same message declared as text and is not
  rejected. A direct message to another existing user is persisted (one row of type
  \<open>text\<close> is appended to \<open>messages\<close>) and fanned out: the handler returns, every registered
  connection of the recipient and of the sender with room in its queue holds the envelope
  whose message has type \<open>text\<close>, and no other queue changes. A message to an existing group
  (whose members exist) is persisted the same way and handed, with type \<open>text\<close>, to one
  sending goroutine per participant of the group's chat.
\<close>

theorem unknown_type_coerced_to_text:
  assumes "MessageType m \<notin> set [''text'', ''emoji'', ''media'', ''gif'']"
    and "available (store w)" and "chans_open w"
    and "users (store w) (userID c) = Some sender"
  shows "handleChatMessage c (Some m) w = handleChatMessage c (Some (m\<lparr>MessageType := ''text''\<rparr>)) w
     \<and> (db_wf (store w) \<and> RecipientID m \<noteq> [] \<and> RecipientID m \<noteq> userID c \<and> GroupID m = []
          \<and> users (store w) (RecipientID m) \<noteq> None
        \<longrightarrow> (\<exists>w' chatID messageID.
               handleChatMessage c (Some m) w = Inr w'
             \<and> messages (store w') = messages (store w) @
                 [\<lparr>message_id = messageID, chat_id = chatID, sender_id = userID c, content = Content m,
                   message_type = ''text'', created_at = clock w\<rparr>]
             \<and> (\<forall>c'. (c' \<in> set (connections_of (hub w) (RecipientID m))
                        \<or> c' \<in> set (connections_of (hub w) (userID c)))
                       \<and> clients (hub w) c' \<noteq> None \<and> length (buf (send w c')) < cap (send w c')
                    \<longrightarrow> text_frame c w m sender chatID messageID \<in> set (buf (send w' c')))
             \<and> (\<forall>c'. c' \<notin> set (connections_of (hub w) (RecipientID m))
                       \<and> c' \<notin> set (connections_of (hub w) (userID c))
                    \<longrightarrow> send w' c' = send w c')))
     \<and> (RecipientID m = [] \<and> GroupID m \<noteq> [] \<and> text_to_integer (store w) (GroupID m) = Some g
          \<and> g \<in> set (groups (store w)) \<and> members_exist (store w) \<and> decimal_ok (store w)
        \<longrightarrow> (\<exists>w' chatID messageID.
               handleChatMessage c (Some m) w = Inr w'
             \<and> messages (store w') = messages (store w) @
                 [\<lparr>message_id = messageID, chat_id = chatID, sender_id = userID c, content = Content m,
                   message_type = ''text'', created_at = clock w\<rparr>]
             \<and> trace w' = trace w @
                 map (\<lambda>p. Go (GoSendToUser p (text_frame c w m sender chatID messageID)))
                   (sort (participants_of (store w') chatID))
             \<and> send w' = send w))"
proof (intro conjI impI)
  show "handleChatMessage c (Some m) w = handleChatMessage c (Some (m\<lparr>MessageType := ''text''\<rparr>)) w"
    using coerce_eq[OF assms(1)] .
next
  let ?name = "first_name sender @ '' '' @ last_name sender"
  let ?avatar = "case avatar_path sender of None \<Rightarrow> [] | Some a \<Rightarrow> a"
  let ?msg = "m\<lparr>Timestamp := clock w, SenderID := userID c, MessageType := ''text'',
                SenderName := ?name, SenderAvatar := ?avatar\<rparr>"
  have si: "sender_info (store w) (userID c) = Inr (?name, ?avatar)"
    using assms(2,4) by (simp add: sender_info_def)
  assume a: "db_wf (store w) \<and> RecipientID m \<noteq> [] \<and> RecipientID m \<noteq> userID c \<and> GroupID m = []
          \<and> users (store w) (RecipientID m) \<noteq> None"
  have "\<exists>cid mid db'. SaveMessageAndGetIDs (store w) ?msg [] = Inr (cid, mid, db')"
    using a assms(2,4) by (intro private_save_succeeds) auto
  then obtain cid mid db' where sv: "SaveMessageAndGetIDs (store w) ?msg (GroupID m) = Inr (cid, mid, db')"
    using a by auto
  note cs = coerce_saved[OF assms(1) si sv]
  let ?out = "?msg\<lparr>ChatID := FormatInt cid, ID := FormatInt mid\<rparr>"
  let ?w1 = "w\<lparr>store := db'\<rparr>"
  have o: "chans_open ?w1" using assms(3) by (simp add: chans_open_def)
  have r: "RecipientID ?out \<noteq> []" using a by simp
  from direct_fanout[OF o r, of c] obtain w' where
    f: "sendMessageToRecipients c ?out ?w1 = Inr w'" "store w' = store ?w1"
       "\<forall>c'. (c' \<in> set (connections_of (hub ?w1) (RecipientID ?out))
                     \<or> c' \<in> set (connections_of (hub ?w1) (SenderID ?out)))
                    \<and> clients (hub ?w1) c' \<noteq> None \<and> length (buf (send ?w1 c')) < cap (send ?w1 c')
                 \<longrightarrow> \<lparr>WSType = TypeChat, Data = ChatData ?out, WSTimestamp = clock ?w1\<rparr>
                       \<in> set (buf (send w' c'))"
       "\<forall>c'. c' \<notin> set (connections_of (hub ?w1) (RecipientID ?out))
                    \<and> c' \<notin> set (connections_of (hub ?w1) (SenderID ?out))
                 \<longrightarrow> send w' c' = send ?w1 c'"
    by blast
  show "\<exists>w' chatID messageID.
               handleChatMessage c (Some m) w = Inr w'
             \<and> messages (store w') = messages (store w) @
                 [\<lparr>message_id = messageID, chat_id = chatID, sender_id = userID c, content = Content m,
                   message_type = ''text'', created_at = clock w\<rparr>]
             \<and> (\<forall>c'. (c' \<in> set (connections_of (hub w) (RecipientID m))
                        \<or> c' \<in> set (connections_of (hub w) (userID c)))
                       \<and> clients (hub w) c' \<noteq> None \<and> length (buf (send w c')) < cap (send w c')
                    \<longrightarrow> text_frame c w m sender chatID messageID \<in> set (buf (send w' c')))
             \<and> (\<forall>c'. c' \<notin> set (connections_of (hub w) (RecipientID m))
                       \<and> c' \<notin> set (connections_of (hub w) (userID c))
                    \<longrightarrow> send w' c' = send w c')"
    using cs f
    by - (rule exI[of _ w'], rule exI[of _ cid], rule exI[of _ mid], simp add: text_frame_def)
next
  let ?name = "first_name sender @ '' '' @ last_name sender"
  let ?avatar = "case avatar_path sender of None \<Rightarrow> [] | Some a \<Rightarrow> a"
  let ?msg = "m\<lparr>Timestamp := clock w, SenderID := userID c, MessageType := ''text'',
                SenderName := ?name, SenderAvatar := ?avatar\<rparr>"
  have si: "sender_info (store w) (userID c) = Inr (?name, ?avatar)"
    using assms(2,4) by (simp add: sender_info_def)
  assume a: "RecipientID m = [] \<and> GroupID m \<noteq> [] \<and> text_to_integer (store w) (GroupID m) = Some g
          \<and> g \<in> set (groups (store w)) \<and> members_exist (store w) \<and> decimal_ok (store w)"
  have "\<exists>cid mid db'. SaveMessageAndGetIDs (store w) ?msg (GroupID m) = Inr (cid, mid, db')"
    using a assms(2,4) by (intro group_save_succeeds[where n = g]) auto
  then obtain cid mid db' where sv: "SaveMessageAndGetIDs (store w) ?msg (GroupID m) = Inr (cid, mid, db')"
    by auto
  note cs = coerce_saved[OF assms(1) si sv]
  let ?out = "?msg\<lparr>ChatID := FormatInt cid, ID := FormatInt mid\<rparr>"
  let ?w1 = "w\<lparr>store := db'\<rparr>"
  have p: "text_to_integer (store ?w1) (ChatID ?out) = Some cid"
    using cs a by (simp add: decimal_ok_def)
  have g: "sendMessageToRecipients c ?out ?w1
         = Inr (?w1\<lparr>trace := trace ?w1 @
                map (\<lambda>p. Go (GoSendToUser p \<lparr>WSType = TypeChat, Data = ChatData ?out, WSTimestamp = clock ?w1\<rparr>))
                  (sort (participants_of (store ?w1) cid))\<rparr>)"
    using a cs by (intro group_fanout p) simp_all
  show "\<exists>w' chatID messageID.
               handleChatMessage c (Some m) w = Inr w'
             \<and> messages (store w') = messages (store w) @
                 [\<lparr>message_id = messageID, chat_id = chatID, sender_id = userID c, content = Content m,
                   message_type = ''text'', created_at = clock w\<rparr>]
             \<and> trace w' = trace w @
                 map (\<lambda>p. Go (GoSendToUser p (text_frame c w m sender chatID messageID)))
                   (sort (participants_of (store w') chatID))
             \<and> send w' = send w"
    using cs g
    by - (rule exI[of _ "?w1\<lparr>trace := trace ?w1 @
                map (\<lambda>p. Go (GoSendToUser p \<lparr>WSType = TypeChat, Data = ChatData ?out, WSTimestamp = clock ?w1\<rparr>))
                  (sort (participants_of (store ?w1) cid))\<rparr>"], rule exI[of _ cid], rule exI[of _ mid],
          simp add: text_frame_def del: sort_key_simps)
qed

lemma example_db_wf: "db_wf example_db"
  by (simp add: db_wf_def example_db_def)

lemma example_decimal_ok: "decimal_ok example_db"
  by (simp add: decimal_ok_def example_db_def decimal_value_FormatInt)

theorem unknown_type_coerced_to_text_witness:
  "(\<exists>w' chatID messageID.
     handleChatMessage alice1 (Some odd_type_message) all_online = Inr w'
     \<and> messages (store w') =
           [\<lparr>message_id = messageID, chat_id = chatID, sender_id = ''alice'', content = ''hi bob'',
             message_type = ''text'', created_at = 10\<rparr>]
     \<and> text_frame alice1 all_online odd_type_message
          \<lparr>first_name = ''Alice'', last_name = ''A'', avatar_path = None\<rparr> chatID messageID
         \<in> set (buf (send w' bob1))
     \<and> text_frame alice1 all_online odd_type_message
          \<lparr>first_name = ''Alice'', last_name = ''A'', avatar_path = None\<rparr> chatID messageID
         \<in> set (buf (send w' alice1))
     \<and> send w' carol1 = send all_online carol1)
   \<and> (\<exists>w' chatID messageID.
     handleChatMessage alice1 (Some (group_gif\<lparr>MessageType := ''sticker''\<rparr>)) all_online = Inr w'
     \<and> messages (store w') =
           [\<lparr>message_id = messageID, chat_id = chatID, sender_id = ''alice'',
             content = ''https://tenor.com/view/cat.gif'', message_type = ''text'', created_at = 10\<rparr>]
     \<and> trace w' = trace all_online @
           map (\<lambda>p. Go (GoSendToUser p
                  (text_frame alice1 all_online (group_gif\<lparr>MessageType := ''sticker''\<rparr>)
                     \<lparr>first_name = ''Alice'', last_name = ''A'', avatar_path = None\<rparr> chatID messageID)))
             (sort (participants_of (store w') chatID)))"
proof -
  have direct: "\<exists>w' chatID messageID.
     handleChatMessage alice1 (Some odd_type_message) all_online = Inr w'
     \<and> messages (store w') =
           [\<lparr>message_id = messageID, chat_id = chatID, sender_id = ''alice'', content = ''hi bob'',
             message_type = ''text'', created_at = 10\<rparr>]
     \<and> text_frame alice1 all_online odd_type_message
          \<lparr>first_name = ''Alice'', last_name = ''A'', avatar_path = None\<rparr> chatID messageID
         \<in> set (buf (send w' bob1))
     \<and> text_frame alice1 all_online odd_type_message
          \<lparr>first_name = ''Alice'', last_name = ''A'', avatar_path = None\<rparr> chatID messageID
         \<in> set (buf (send w' alice1))
     \<and> send w' carol1 = send all_online carol1"
  proof -
    let ?sender = "\<lparr>first_name = ''Alice'', last_name = ''A'', avatar_path = None\<rparr>"
    have t: "MessageType odd_type_message \<notin> set [''text'', ''emoji'', ''media'', ''gif'']"
      by (simp add: odd_type_message_def)
    have av: "available (store all_online)" by (simp add: all_online_eval example_available)
    have us: "users (store all_online) (userID alice1) = Some ?sender"
      by (simp add: all_online_eval example_db_def alice1_def)
    have h: "db_wf (store all_online) \<and> RecipientID odd_type_message \<noteq> []
            \<and> RecipientID odd_type_message \<noteq> userID alice1 \<and> GroupID odd_type_message = []
            \<and> users (store all_online) (RecipientID odd_type_message) \<noteq> None"
      using example_db_wf
      by (simp add: all_online_eval odd_type_message_def alice1_def) (simp add: example_db_def)
    note second = conjunct1[OF conjunct2[OF unknown_type_coerced_to_text[OF t av all_online_open us]]]
    from mp[OF second h] obtain w' chatID messageID where
      r: "handleChatMessage alice1 (Some odd_type_message) all_online = Inr w'"
         "messages (store w') = messages (store all_online) @
                   [\<lparr>message_id = messageID, chat_id = chatID, sender_id = userID alice1,
                     content = Content odd_type_message, message_type = ''text'', created_at = clock all_online\<rparr>]"
         "\<forall>c'. (c' \<in> set (connections_of (hub all_online) (RecipientID odd_type_message))
                          \<or> c' \<in> set (connections_of (hub all_online) (userID alice1)))
                         \<and> clients (hub all_online) c' \<noteq> None
                         \<and> length (buf (send all_online c')) < cap (send all_online c')
                      \<longrightarrow> text_frame alice1 all_online odd_type_message ?sender chatID messageID
                            \<in> set (buf (send w' c'))"
         "\<forall>c'. c' \<notin> set (connections_of (hub all_online) (RecipientID odd_type_message))
                         \<and> c' \<notin> set (connections_of (hub all_online) (userID alice1))
                      \<longrightarrow> send w' c' = send all_online c'"
      by blast
    have reg: "clients (hub all_online) alice1 = Some True" "clients (hub all_online) bob1 = Some True"
      by (simp_all add: all_online_def alice_online_def handleRegister_def example_world_def Let_def
            addUserConnectionUnsafe_def updateUserStatus_def go_def alice1_def bob1_def carol1_def)
    have e: "RecipientID odd_type_message = ''bob''" "userID alice1 = ''alice''"
      "Content odd_type_message = ''hi bob''" "messages (store all_online) = []" "clock all_online = 10"
      by (simp_all add: odd_type_message_def alice1_def all_online_eval example_db_def)
    have b: "text_frame alice1 all_online odd_type_message ?sender chatID messageID \<in> set (buf (send w' bob1))"
      using spec[OF r(3), of bob1] reg by (simp add: e all_online_hub all_online_eval)
    have a: "text_frame alice1 all_online odd_type_message ?sender chatID messageID \<in> set (buf (send w' alice1))"
      using spec[OF r(3), of alice1] reg by (simp add: e all_online_hub all_online_eval)
    have c: "send w' carol1 = send all_online carol1"
      using spec[OF r(4), of carol1] by (simp add: e all_online_hub alice1_def bob1_def carol1_def)
    show ?thesis using r(1,2) a b c unfolding e by auto
  qed
  have grp: "\<exists>w' chatID messageID.
     handleChatMessage alice1 (Some (group_gif\<lparr>MessageType := ''sticker''\<rparr>)) all_online = Inr w'
     \<and> messages (store w') =
           [\<lparr>message_id = messageID, chat_id = chatID, sender_id = ''alice'',
             content = ''https://tenor.com/view/cat.gif'', message_type = ''text'', created_at = 10\<rparr>]
     \<and> trace w' = trace all_online @
           map (\<lambda>p. Go (GoSendToUser p
                  (text_frame alice1 all_online (group_gif\<lparr>MessageType := ''sticker''\<rparr>)
                     \<lparr>first_name = ''Alice'', last_name = ''A'', avatar_path = None\<rparr> chatID messageID)))
             (sort (participants_of (store w') chatID))"
  proof -
    let ?sender = "\<lparr>first_name = ''Alice'', last_name = ''A'', avatar_path = None\<rparr>"
    let ?m = "group_gif\<lparr>MessageType := ''sticker''\<rparr>"
    have t: "MessageType ?m \<notin> set [''text'', ''emoji'', ''media'', ''gif'']" by simp
    have av: "available (store all_online)" by (simp add: all_online_eval example_available)
    have us: "users (store all_online) (userID alice1) = Some ?sender"
      by (simp add: all_online_eval example_db_def alice1_def)
    have h: "RecipientID ?m = [] \<and> GroupID ?m \<noteq> [] \<and> text_to_integer (store all_online) (GroupID ?m) = Some 1
          \<and> 1 \<in> set (groups (store all_online)) \<and> members_exist (store all_online)
          \<and> decimal_ok (store all_online)"
      using example_decimal_ok
      by (simp add: all_online_eval group_gif_def members_exist_def)
         (simp add: example_db_def decimal_value_def digit_val_def)
    note third = conjunct2[OF conjunct2[OF unknown_type_coerced_to_text[OF t av all_online_open us, where g = 1]]]
    from mp[OF third h] obtain w' chatID messageID where
      r: "handleChatMessage alice1 (Some ?m) all_online = Inr w'"
         "messages (store w') = messages (store all_online) @
                 [\<lparr>message_id = messageID, chat_id = chatID, sender_id = userID alice1,
                   content = Content ?m, message_type = ''text'', created_at = clock all_online\<rparr>]"
         "trace w' = trace all_online @
                 map (\<lambda>p. Go (GoSendToUser p (text_frame alice1 all_online ?m ?sender chatID messageID)))
                   (sort (participants_of (store w') chatID))"
      by blast
    have e: "userID alice1 = ''alice''" "Content ?m = ''https://tenor.com/view/cat.gif''"
      "messages (store all_online) = []" "clock all_online = 10"
      by (simp_all add: group_gif_def alice1_def all_online_eval example_db_def)
    show ?thesis using r unfolding e by auto
  qed
  show ?thesis using direct grp by (rule conjI)
qed

lemma decimal_value_1: "decimal_value ''1'' = Some 1" "decimal_value ''2'' = Some 2"
  by (simp_all add: decimal_value_def digit_val_def)

lemma group_save_eval:
  assumes "SenderID msg = ''alice''" "MessageType msg \<in> set [''text'', ''emoji'', ''media'']"
  shows "SaveMessageAndGetIDs example_db msg ''1'' = Inr (2, 1, group_thread_db msg)"
proof -
  have g: "getOrCreateGroupChatThread example_db ''1'' =
      Inr (2, example_db\<lparr>chat_threads := chat_threads example_db @ [\<lparr>thread_id = 2, is_group = True, group_id = Some 1\<rparr>],
       thread_seq := 2,
       chat_participants := chat_participants example_db @ [(2, ''alice''), (2, ''bob'')]\<rparr>)"
    by (simp add: getOrCreateGroupChatThread_def decimal_value_1 insert_chat_thread_def
        addGroupMembersToChat_def participant_keys_ok_def Let_def example_db_def)
  show ?thesis using assms
    by (simp add: SaveMessageAndGetIDs_def g insert_message_def Let_def group_thread_db_def)
       (simp add: example_db_def)
qed

lemma alice_info: "sender_info example_db ''alice'' = Inr (''Alice A'', [])"
  by (simp add: sender_info_def example_db_def)

lemma evil_gif_valid: "isValidGifMessage evil_gif"
  unfolding isValidGifMessage_def evil_gif_def by code_simp

lemma evil_gif_untrusted: "\<not> on_allow_list (Content evil_gif)"
  unfolding on_allow_list_def url_host_def trusted_media_domains_def evil_gif_def by code_simp

lemma evil_save:
  assumes "SenderID msg = ''alice''" "RecipientID msg = ''bob''" "MessageType msg = ''media''"
  shows "SaveMessageAndGetIDs example_db msg [] = Inr (2, 1,
     example_db\<lparr>chat_threads := chat_threads example_db @ [\<lparr>thread_id = 2, is_group = False, group_id = None\<rparr>],
       thread_seq := 2,
       chat_participants := chat_participants example_db @ [(2, ''alice''), (2, ''bob'')],
       messages := [\<lparr>message_id = 1, chat_id = 2, sender_id = ''alice'', content = Content msg,
                     message_type = ''media'', created_at = Timestamp msg\<rparr>],
       message_seq := 1\<rparr>)"
proof -
  have g: "getOrCreatePrivateChatThread example_db ''alice'' ''bob'' =
      Inr (2, example_db\<lparr>chat_threads := chat_threads example_db @ [\<lparr>thread_id = 2, is_group = False, group_id = None\<rparr>],
       thread_seq := 2,
       chat_participants := chat_participants example_db @ [(2, ''alice''), (2, ''bob'')]\<rparr>)"
    by (simp add: getOrCreatePrivateChatThread_def private_threads_def private_thread_matches_def
        insert_chat_thread_def insert_participants_def participant_keys_ok_def Let_def example_db_def)
  show ?thesis using assms
    by (simp add: SaveMessageAndGetIDs_def g insert_message_def Let_def)
       (simp add: example_db_def)
qed

lemma all_online_clients:
  "clients (hub all_online) alice1 = Some True" "clients (hub all_online) bob1 = Some True"
  by (simp_all add: all_online_def alice_online_def handleRegister_def example_world_def Let_def
      addUserConnectionUnsafe_def updateUserStatus_def go_def alice1_def bob1_def carol1_def)

text \<open>
  Claim C7 at a failing input. Alice sends a gif for bob whose URL is on the host
  \<open>evil.example\<close> and carries \<open>tenor.com\<close> only in its query string. The URL is not on the
  allow-list, yet the handler takes the payload as valid: the message is persisted as a
  \<open>media\<close> row and its envelope is the one frame in bob's queue and in alice's; no error
  frame is sent.
\<close>

theorem untrusted_gif_accepted:
  "\<not> on_allow_list (Content evil_gif)
   \<and> (\<exists>w'. handleGifMessage alice1 (Some evil_gif) all_online = Inr w'
        \<and> messages (store w') =
            [\<lparr>message_id = 1, chat_id = 2, sender_id = ''alice'',
              content = ''https://evil.example/cat.gif?from=tenor.com'',
              message_type = ''media'', created_at = 10\<rparr>]
        \<and> buf (send w' bob1) = [evil_gif_frame]
        \<and> buf (send w' alice1) = [evil_gif_frame])"
proof -
  let ?msg = "evil_gif\<lparr>Timestamp := 10, SenderID := ''alice'', MessageType := ''media'',
      SenderName := ''Alice A'', SenderAvatar := []\<rparr>"
  let ?db = "example_db\<lparr>chat_threads := chat_threads example_db @ [\<lparr>thread_id = 2, is_group = False, group_id = None\<rparr>],
       thread_seq := 2,
       chat_participants := chat_participants example_db @ [(2, ''alice''), (2, ''bob'')],
       messages := [\<lparr>message_id = 1, chat_id = 2, sender_id = ''alice'', content = Content ?msg,
                     message_type = ''media'', created_at = Timestamp ?msg\<rparr>],
       message_seq := 1\<rparr>"
  have s: "SaveMessageAndGetIDs example_db ?msg [] = Inr (2, 1, ?db)"
    by (rule evil_save) (simp_all add: evil_gif_def)
  have f: "FormatInt 2 = ''2''" "FormatInt (Suc 0) = ''1''" by code_simp+
  have r: "RecipientID evil_gif = ''bob''" by (simp add: evil_gif_def)
  have ne: "bob1 \<noteq> alice1" by (simp add: bob1_def alice1_def)
  let ?w1 = "all_online\<lparr>store := ?db\<rparr>"
  let ?w2 = "?w1\<lparr>send := (send ?w1)(bob1 := (send ?w1 bob1)\<lparr>buf := buf (send ?w1 bob1) @ [evil_gif_frame]\<rparr>)\<rparr>"
  let ?w3 = "?w2\<lparr>send := (send ?w2)(alice1 := (send ?w2 alice1)\<lparr>buf := buf (send ?w2 alice1) @ [evil_gif_frame]\<rparr>)\<rparr>"
  have d1: "SendToUser ''bob'' evil_gif_frame ?w1 = Inr ?w2"
    by (simp add: SendToUser_def Let_def all_online_hub all_online_clients all_online_eval)
  have d2: "SendToUser ''alice'' evil_gif_frame ?w2 = Inr ?w3"
    using ne by (simp add: SendToUser_def Let_def all_online_hub all_online_clients all_online_eval)
  have h: "handleGifMessage alice1 (Some evil_gif) all_online = Inr ?w3"
    using evil_gif_valid s d1 d2
    by (simp add: handleGifMessage_def all_online_eval alice_info alice1_def Let_def r f evil_gif_frame_def)
  show ?thesis unfolding h using evil_gif_untrusted ne
    by (simp add: all_online_eval) (simp add: evil_gif_def)
qed

text \<open>
  Claim C8 at a failing input. Alice, Bob and Carol are connected; Alice and Bob are the
  members of group 1. Alice sends a valid gif to the group: the message is persisted once,
  the chat has the two participants, and nothing is sent to anyone: no goroutine is
  started and no queue changes. The same message sent as a chat message is fanned out to
  both participants (\<open>group_text_fanned_out\<close>).
\<close>

theorem group_gif_not_fanned_out:
  "\<exists>w'. handleGifMessage alice1 (Some group_gif) all_online = Inr w'
      \<and> messages (store w') =
          [\<lparr>message_id = 1, chat_id = 2, sender_id = ''alice'', content = ''https://tenor.com/view/cat.gif'',
            message_type = ''media'', created_at = 10\<rparr>]
      \<and> participants_of (store w') 2 = [''alice'', ''bob'']
      \<and> connections_of (hub w') ''bob'' = [bob1]
      \<and> clients (hub w') bob1 = Some True
      \<and> trace w' = trace all_online
      \<and> send w' = send all_online"
proof -
  let ?msg = "group_gif\<lparr>Timestamp := 10, SenderID := ''alice'', MessageType := ''media'',
      SenderName := ''Alice A'', SenderAvatar := []\<rparr>"
  have s: "SaveMessageAndGetIDs example_db ?msg ''1'' = Inr (2, 1, group_thread_db ?msg)"
    by (rule group_save_eval) simp_all
  have h: "handleGifMessage alice1 (Some group_gif) all_online = Inr (all_online\<lparr>store := group_thread_db ?msg\<rparr>)"
    using group_gif_valid s
    by (simp add: handleGifMessage_def all_online_eval alice_info alice1_def Let_def)
       (simp add: group_gif_def)
  show ?thesis unfolding h
    by (simp add: all_online_hub) (simp add: group_thread_db_def group_gif_def participants_of_def example_db_def)
qed

lemma group_text_fanned_out:
  "\<exists>w'. handleChatMessage alice1 (Some (group_gif\<lparr>MessageType := ''text''\<rparr>)) all_online = Inr w'
      \<and> concat (map targets_of (drop (length (trace all_online)) (trace w'))) = [''alice'', ''bob'']"
proof -
  let ?msg = "group_gif\<lparr>MessageType := ''text'', Timestamp := 10, SenderID := ''alice'',
      SenderName := ''Alice A'', SenderAvatar := []\<rparr>"
  have s: "SaveMessageAndGetIDs example_db ?msg ''1'' = Inr (2, 1, group_thread_db ?msg)"
    by (rule group_save_eval) simp_all
  have f: "FormatInt 2 = ''2''" "FormatInt 1 = ''1''" by code_simp+
  have p: "getChatParticipants (group_thread_db ?msg) ''2'' = Inr [''alice'', ''bob'']"
    by (simp add: getChatParticipants_def decimal_value_1 group_thread_db_def participants_of_def example_db_def)
  have g: "GroupID group_gif = ''1''" "RecipientID group_gif = []" by (simp_all add: group_gif_def)
  show ?thesis using s p
    by (simp add: handleChatMessage_def all_online_eval alice_info alice1_def Let_def g f
        sendMessageToRecipients_def SendToUsers_eq)
qed

end
